theory Spec2Isabelle
  imports Main
begin

section \<open>Values, documents and Python dictionaries\<close>

text \<open>
  The adapter of \<^verbatim>\<open>src/db.py\<close> moves Python dictionaries between its callers and a
  document collection. A dictionary is an association list in insertion order (keys occur
  once); the values are those the code and the seed data use: strings, integers, lists
  and the store's object identifiers.
\<close>

datatype val = VStr string | VInt int | VList "val list" | VOid nat

type_synonym doc = "(string \<times> val) list"

datatype exn =
    ServerSelectionTimeoutError
  | PyMongoError
  | DuplicateKeyError
  | WriteError
  | KeyError
  | TypeError
  | AttributeError
  | NotImplementedError
  | OverflowError

text \<open>\<^verbatim>\<open>d[k] = v\<close>: an existing key keeps its position, a new key goes last.\<close>

fun dict_set :: "'k \<Rightarrow> 'v \<Rightarrow> ('k \<times> 'v) list \<Rightarrow> ('k \<times> 'v) list" where
  "dict_set k v [] = [(k, v)]"
| "dict_set k v (p # ps) = (if fst p = k then (k, v) # ps else p # dict_set k v ps)"

text \<open>\<^verbatim>\<open>d.pop(k, None)\<close>, the popped value dropped.\<close>

definition dict_pop :: "'k \<Rightarrow> ('k \<times> 'v) list \<Rightarrow> ('k \<times> 'v) list" where
  "dict_pop k d = filter (\<lambda>p. fst p \<noteq> k) d"

text \<open>\<^verbatim>\<open>{**d, **u}\<close>: the entries of \<open>u\<close> written into \<open>d\<close> one after the other.\<close>

definition dict_merge :: "('k \<times> 'v) list \<Rightarrow> ('k \<times> 'v) list \<Rightarrow> ('k \<times> 'v) list" where
  "dict_merge d u = foldl (\<lambda>acc p. dict_set (fst p) (snd p) acc) d u"

text \<open>Only lists are unhashable among the values; they cannot be dictionary keys.\<close>

fun hashable :: "val \<Rightarrow> bool" where
  "hashable (VList xs) = False"
| "hashable v = True"

fun is_substring :: "string \<Rightarrow> string \<Rightarrow> bool" where
  "is_substring xs [] = (xs = [])"
| "is_substring xs (y # ys) = (take (length xs) (y # ys) = xs \<or> is_substring xs ys)"

text \<open>
  \<^verbatim>\<open>email in x\<close>: membership in a list, substring test in a string, \<^verbatim>\<open>TypeError\<close> for a
  value that is not a container.
\<close>

fun py_in :: "string \<Rightarrow> val \<Rightarrow> exn + bool" where
  "py_in e (VList xs) = Inr (VStr e \<in> set xs)"
| "py_in e (VStr s) = Inr (is_substring e s)"
| "py_in e v = Inl TypeError"

text \<open>
  What the driver can encode for the store: integers of at most 64 bits. Encoding a larger
  one raises \<^verbatim>\<open>OverflowError\<close>.
\<close>

fun encodable :: "val \<Rightarrow> bool" where
  "encodable (VInt i) = (- (2 ^ 63) \<le> i \<and> i < 2 ^ 63)"
| "encodable (VList xs) = list_all encodable xs"
| "encodable (VStr s) = True"
| "encodable (VOid n) = True"

definition encodable_doc :: "doc \<Rightarrow> bool" where
  "encodable_doc d = list_all (\<lambda>p. encodable (snd p)) d"

section \<open>The document store\<close>

text \<open>
  Modelled from the spec: the document store (the driver and the server behind it) is an
  external collaborator, not part of the sources. It is modelled as far as the adapter
  uses it, from the spec's sections 3 to 5 and 7: one collection of documents in
  insertion order, an optional uniqueness constraint on the field \<^verbatim>\<open>name\<close>, single-document
  operations that are atomic, and operations that may fail with a store-level fault
  (network error, timeout, constraint violation).

  Whether a call faults is decided by the environment: \<open>faults\<close> lists the outcome of the
  coming calls, one entry per call (\<open>None\<close>: the call completes; a list that has run out:
  every further call completes). A call that faults leaves the collection as it was.
  \<open>trace\<close> records every call made to the store, in order.

  The sources pin no driver version, and the drivers differ in one point the adapter
  depends on: the truth value of a collection object. With an older driver it is an
  ordinary object and counts as true; with a current one truth testing it raises
  \<^verbatim>\<open>NotImplementedError\<close>. \<open>handles\<close> says which kind of collection object the driver
  hands out.
\<close>

datatype truth = Truthy | Refuses

datatype update = AddToSet string val | Pull string val | Set doc

datatype call =
    NewClient
  | Ping
  | GetDatabase
  | GetCollection
  | CreateIndex
  | Find
  | FindOne string
  | InsertOne doc
  | UpdateOne string update
  | DeleteOne string
  | DeleteMany
  | Close

record store =
  docs :: "doc list"
  name_index :: bool
  handles :: truth
  faults :: "exn option list"
  trace :: "call list"

definition next_fault :: "store \<Rightarrow> exn option" where
  "next_fault s = (case faults s of [] \<Rightarrow> None | f # fs \<Rightarrow> f)"

definition begin_call :: "call \<Rightarrow> store \<Rightarrow> store" where
  "begin_call c s = s\<lparr>faults := tl (faults s), trace := trace s @ [c]\<rparr>"

text \<open>Modelled from the spec: a call that touches no document (client construction, ping,
  database and collection lookup) only completes or faults.\<close>

definition plain_call :: "call \<Rightarrow> store \<Rightarrow> (exn + unit) \<times> store" where
  "plain_call c s =
     (case next_fault s of
        Some e \<Rightarrow> (Inl e, begin_call c s)
      | None \<Rightarrow> (Inr (), begin_call c s))"

definition name_of :: "doc \<Rightarrow> val option" where
  "name_of d = map_of d ''name''"

text \<open>Modelled from the spec: the filter \<^verbatim>\<open>{"name": n}\<close> matches by exact name.\<close>

definition matches :: "string \<Rightarrow> doc \<Rightarrow> bool" where
  "matches n d = (name_of d = Some (VStr n))"

fun replace_first :: "('a \<Rightarrow> bool) \<Rightarrow> 'a \<Rightarrow> 'a list \<Rightarrow> 'a list" where
  "replace_first P y [] = []"
| "replace_first P y (x # xs) = (if P x then y # xs else x # replace_first P y xs)"

fun remove_first :: "('a \<Rightarrow> bool) \<Rightarrow> 'a list \<Rightarrow> 'a list" where
  "remove_first P [] = []"
| "remove_first P (x # xs) = (if P x then xs else x # remove_first P xs)"

text \<open>Modelled from the spec: the store gives a document without \<^verbatim>\<open>_id\<close> a fresh object
  identifier and keeps \<^verbatim>\<open>_id\<close> as the first field.\<close>

definition oid_bound :: "doc \<Rightarrow> nat" where
  "oid_bound d = (case map_of d ''_id'' of Some (VOid n) \<Rightarrow> Suc n | _ \<Rightarrow> 0)"

fun next_oid :: "doc list \<Rightarrow> nat" where
  "next_oid [] = 0"
| "next_oid (d # ds) = max (oid_bound d) (next_oid ds)"

definition with_id :: "doc list \<Rightarrow> doc \<Rightarrow> doc" where
  "with_id ds d =
     (case map_of d ''_id'' of
        None \<Rightarrow> (''_id'', VOid (next_oid ds)) # d
      | Some i \<Rightarrow> (''_id'', i) # dict_pop ''_id'' d)"

definition id_clash :: "doc list \<Rightarrow> doc \<Rightarrow> bool" where
  "id_clash ds d = (map_of d ''_id'' \<in> set (map (\<lambda>d'. map_of d' ''_id'') ds))"

definition name_clash :: "doc list \<Rightarrow> doc \<Rightarrow> bool" where
  "name_clash ds d = (name_of d \<in> set (map name_of ds))"

text \<open>Modelled from the spec: \<^verbatim>\<open>create_index("name", unique=True)\<close> is idempotent; it
  cannot be built over documents that already share a name.\<close>

definition coll_create_index :: "store \<Rightarrow> (exn + unit) \<times> store" where
  "coll_create_index s =
     (case next_fault s of
        Some e \<Rightarrow> (Inl e, begin_call CreateIndex s)
      | None \<Rightarrow>
          (let s' = begin_call CreateIndex s in
           if name_index s' then (Inr (), s')
           else if distinct (map name_of (docs s')) then (Inr (), s'\<lparr>name_index := True\<rparr>)
           else (Inl DuplicateKeyError, s')))"

text \<open>Modelled from the spec: \<^verbatim>\<open>find()\<close> yields every document of the collection.\<close>

definition coll_find :: "store \<Rightarrow> (exn + doc list) \<times> store" where
  "coll_find s =
     (case next_fault s of
        Some e \<Rightarrow> (Inl e, begin_call Find s)
      | None \<Rightarrow> (Inr (docs s), begin_call Find s))"

text \<open>Modelled from the spec: \<^verbatim>\<open>find_one\<close> yields the first document with the name, or
  nothing.\<close>

definition coll_find_one :: "string \<Rightarrow> store \<Rightarrow> (exn + doc option) \<times> store" where
  "coll_find_one n s =
     (case next_fault s of
        Some e \<Rightarrow> (Inl e, begin_call (FindOne n) s)
      | None \<Rightarrow> (Inr (find (matches n) (docs s)), begin_call (FindOne n) s))"

text \<open>Modelled from the spec: \<^verbatim>\<open>insert_one\<close> appends the document unless it cannot be
  encoded, its \<^verbatim>\<open>_id\<close> is taken or the uniqueness constraint on \<^verbatim>\<open>name\<close> is violated; then
  nothing is written.\<close>

definition coll_insert_one :: "doc \<Rightarrow> store \<Rightarrow> (exn + unit) \<times> store" where
  "coll_insert_one d s =
     (case next_fault s of
        Some e \<Rightarrow> (Inl e, begin_call (InsertOne d) s)
      | None \<Rightarrow>
          (let s' = begin_call (InsertOne d) s; d' = with_id (docs s') d in
           if \<not> encodable_doc d then (Inl OverflowError, s')
           else if id_clash (docs s') d' \<or> (name_index s' \<and> name_clash (docs s') d')
           then (Inl DuplicateKeyError, s')
           else (Inr (), s'\<lparr>docs := docs s' @ [d']\<rparr>)))"

text \<open>Modelled from the spec: the update operators. \<^verbatim>\<open>$addToSet\<close> adds the value to the
  array if absent (and creates the array when the field is missing); \<^verbatim>\<open>$pull\<close> removes
  every occurrence; \<^verbatim>\<open>$set\<close> merges fields into the document. The first two fail on a
  field that is not an array; \<^verbatim>\<open>_id\<close> is immutable.\<close>

fun apply_update :: "update \<Rightarrow> doc \<Rightarrow> exn + doc" where
  "apply_update (AddToSet f v) d =
     (case map_of d f of
        None \<Rightarrow> Inr (d @ [(f, VList [v])])
      | Some (VList xs) \<Rightarrow> Inr (if v \<in> set xs then d else dict_set f (VList (xs @ [v])) d)
      | Some _ \<Rightarrow> Inl WriteError)"
| "apply_update (Pull f v) d =
     (case map_of d f of
        None \<Rightarrow> Inr d
      | Some (VList xs) \<Rightarrow> Inr (if v \<in> set xs then dict_set f (VList (removeAll v xs)) d else d)
      | Some _ \<Rightarrow> Inl WriteError)"
| "apply_update (Set u) d =
     (let d' = dict_merge d u in
      if map_of d' ''_id'' = map_of d ''_id'' then Inr d' else Inl WriteError)"

fun encodable_update :: "update \<Rightarrow> bool" where
  "encodable_update (AddToSet f v) = encodable v"
| "encodable_update (Pull f v) = encodable v"
| "encodable_update (Set u) = encodable_doc u"

text \<open>Modelled from the spec: \<^verbatim>\<open>update_one\<close> changes the first document with the name and
  reports how many documents it modified (0 or 1); a document that ends up as it was is
  not modified.\<close>

definition coll_update_one :: "string \<Rightarrow> update \<Rightarrow> store \<Rightarrow> (exn + nat) \<times> store" where
  "coll_update_one n u s =
     (case next_fault s of
        Some e \<Rightarrow> (Inl e, begin_call (UpdateOne n u) s)
      | None \<Rightarrow>
          (let s' = begin_call (UpdateOne n u) s in
           if \<not> encodable_update u then (Inl OverflowError, s')
           else
           case find (matches n) (docs s') of
             None \<Rightarrow> (Inr 0, s')
           | Some d \<Rightarrow>
               (case apply_update u d of
                  Inl e \<Rightarrow> (Inl e, s')
                | Inr d' \<Rightarrow>
                    if d' = d then (Inr 0, s')
                    else if name_index s' \<and> name_of d' \<noteq> name_of d \<and> name_clash (docs s') d'
                    then (Inl DuplicateKeyError, s')
                    else (Inr 1, s'\<lparr>docs := replace_first (matches n) d' (docs s')\<rparr>))))"

text \<open>Modelled from the spec: \<^verbatim>\<open>delete_one\<close> removes the first document with the name and
  reports how many it deleted; \<^verbatim>\<open>delete_many({})\<close> empties the collection.\<close>

definition coll_delete_one :: "string \<Rightarrow> store \<Rightarrow> (exn + nat) \<times> store" where
  "coll_delete_one n s =
     (case next_fault s of
        Some e \<Rightarrow> (Inl e, begin_call (DeleteOne n) s)
      | None \<Rightarrow>
          (let s' = begin_call (DeleteOne n) s in
           case find (matches n) (docs s') of
             None \<Rightarrow> (Inr 0, s')
           | Some d \<Rightarrow> (Inr 1, s'\<lparr>docs := remove_first (matches n) (docs s')\<rparr>)))"

definition coll_delete_many :: "store \<Rightarrow> (exn + nat) \<times> store" where
  "coll_delete_many s =
     (case next_fault s of
        Some e \<Rightarrow> (Inl e, begin_call DeleteMany s)
      | None \<Rightarrow> (Inr (length (docs s)), (begin_call DeleteMany s)\<lparr>docs := []\<rparr>))"

section \<open>The store adapter: \<^verbatim>\<open>ActivityDatabase\<close> of \<^verbatim>\<open>src/db.py\<close>\<close>

text \<open>
  The adapter's fields are optional handles, \<open>None\<close> as \<^verbatim>\<open>__init__\<close> leaves them. A
  collection handle is the driver's collection object, of the kind the driver hands out.
  The connection string, the database name and the adapter's diagnostic prints play no
  part in any result and are left out.
\<close>

datatype client_h = MongoClient
datatype db_h = Database
datatype coll_h = Collection truth

record adapter =
  client :: "client_h option"
  db :: "db_h option"
  activities_collection :: "coll_h option"

definition init :: adapter where
  "init = \<lparr>client = None, db = None, activities_collection = None\<rparr>"

text \<open>
  \<^verbatim>\<open>connect\<close>: five steps inside one \<^verbatim>\<open>try\<close>; both \<^verbatim>\<open>except\<close> clauses return
  \<^verbatim>\<open>False\<close>. A field assigned before the failing step keeps its new value.
\<close>

definition connect :: "adapter \<Rightarrow> store \<Rightarrow> bool \<times> adapter \<times> store" where
  "connect self s =
     (case plain_call NewClient s of
        (Inl e, s1) \<Rightarrow> (False, self, s1)
      | (Inr u1, s1) \<Rightarrow>
          (let self1 = self\<lparr>client := Some MongoClient\<rparr> in
           case plain_call Ping s1 of
             (Inl e, s2) \<Rightarrow> (False, self1, s2)
           | (Inr u2, s2) \<Rightarrow>
               (case plain_call GetDatabase s2 of
                  (Inl e, s3) \<Rightarrow> (False, self1, s3)
                | (Inr u3, s3) \<Rightarrow>
                    (let self2 = self1\<lparr>db := Some Database\<rparr> in
                     case plain_call GetCollection s3 of
                       (Inl e, s4) \<Rightarrow> (False, self2, s4)
                     | (Inr u4, s4) \<Rightarrow>
                         (let self3 =
                                self2\<lparr>activities_collection := Some (Collection (handles s4))\<rparr> in
                          case coll_create_index s4 of
                            (Inl e, s5) \<Rightarrow> (False, self3, s5)
                          | (Inr u5, s5) \<Rightarrow> (True, self3, s5))))))"

text \<open>\<^verbatim>\<open>close\<close>: closes the client when one is held; no field is reset. Closing never
  faults.\<close>

definition close :: "adapter \<Rightarrow> store \<Rightarrow> adapter \<times> store" where
  "close self s =
     (case client self of
        None \<Rightarrow> (self, s)
      | Some c \<Rightarrow> (self, s\<lparr>trace := trace s @ [Close]\<rparr>))"

text \<open>The loop of \<^verbatim>\<open>get_all_activities\<close>: \<^verbatim>\<open>doc.pop("name")\<close> raises \<^verbatim>\<open>KeyError\<close> on a
  document without a name; the name becomes the key of the result.\<close>

fun collect :: "doc list \<Rightarrow> (val \<times> doc) list \<Rightarrow> exn + (val \<times> doc) list" where
  "collect [] activities = Inr activities"
| "collect (doc # ds) activities =
     (case map_of doc ''name'' of
        None \<Rightarrow> Inl KeyError
      | Some activity_name \<Rightarrow>
          (let doc' = dict_pop ''_id'' (dict_pop ''name'' doc) in
           if hashable activity_name
           then collect ds (dict_set activity_name doc' activities)
           else Inl TypeError))"

text \<open>
  The guard \<^verbatim>\<open>if not self.activities_collection\<close> that opens every operation, outside
  any \<^verbatim>\<open>try\<close>: true for \<^verbatim>\<open>None\<close>; for a held handle it truth-tests the collection
  object, which is false for an ordinary object and raises for one that refuses the test.
\<close>

definition not_collection :: "adapter \<Rightarrow> exn + bool" where
  "not_collection self =
     (case activities_collection self of
        None \<Rightarrow> Inr True
      | Some (Collection Truthy) \<Rightarrow> Inr False
      | Some (Collection Refuses) \<Rightarrow> Inl NotImplementedError)"

definition get_all_activities :: "adapter \<Rightarrow> store \<Rightarrow> (exn + (val \<times> doc) list) \<times> store" where
  "get_all_activities self s =
     (case not_collection self of
        Inl e \<Rightarrow> (Inl e, s)
      | Inr True \<Rightarrow> (Inr [], s)
      | Inr False \<Rightarrow>
          (case coll_find s of
             (Inl e, s') \<Rightarrow> (Inl e, s')
           | (Inr ds, s') \<Rightarrow> (collect ds [], s')))"

definition get_activity :: "adapter \<Rightarrow> string \<Rightarrow> store \<Rightarrow> (exn + doc option) \<times> store" where
  "get_activity self activity_name s =
     (case not_collection self of
        Inl e \<Rightarrow> (Inl e, s)
      | Inr True \<Rightarrow> (Inr None, s)
      | Inr False \<Rightarrow>
          (case coll_find_one activity_name s of
             (Inl e, s') \<Rightarrow> (Inl e, s')
           | (Inr None, s') \<Rightarrow> (Inr None, s')
           | (Inr (Some doc), s') \<Rightarrow>
               (Inr (Some (if doc = [] then doc else dict_pop ''_id'' doc)), s')))"

text \<open>The mutating operations wrap their store call, not the guard, in
  \<^verbatim>\<open>try ... except Exception\<close> and return \<^verbatim>\<open>False\<close> from the handler.\<close>

definition create_activity :: "adapter \<Rightarrow> string \<Rightarrow> doc \<Rightarrow> store \<Rightarrow> (exn + bool) \<times> store" where
  "create_activity self name activity_data s =
     (case not_collection self of
        Inl e \<Rightarrow> (Inl e, s)
      | Inr True \<Rightarrow> (Inr False, s)
      | Inr False \<Rightarrow>
          (case coll_insert_one (dict_merge [(''name'', VStr name)] activity_data) s of
             (Inl e, s') \<Rightarrow> (Inr False, s')
           | (Inr u, s') \<Rightarrow> (Inr True, s')))"

definition add_participant :: "adapter \<Rightarrow> string \<Rightarrow> string \<Rightarrow> store \<Rightarrow> (exn + bool) \<times> store" where
  "add_participant self activity_name email s =
     (case not_collection self of
        Inl e \<Rightarrow> (Inl e, s)
      | Inr True \<Rightarrow> (Inr False, s)
      | Inr False \<Rightarrow>
          (case coll_update_one activity_name (AddToSet ''participants'' (VStr email)) s of
             (Inl e, s') \<Rightarrow> (Inr False, s')
           | (Inr modified_count, s') \<Rightarrow> (Inr (modified_count > 0), s')))"

definition remove_participant :: "adapter \<Rightarrow> string \<Rightarrow> string \<Rightarrow> store \<Rightarrow> (exn + bool) \<times> store" where
  "remove_participant self activity_name email s =
     (case not_collection self of
        Inl e \<Rightarrow> (Inl e, s)
      | Inr True \<Rightarrow> (Inr False, s)
      | Inr False \<Rightarrow>
          (case coll_update_one activity_name (Pull ''participants'' (VStr email)) s of
             (Inl e, s') \<Rightarrow> (Inr False, s')
           | (Inr modified_count, s') \<Rightarrow> (Inr (modified_count > 0), s')))"

definition delete_activity :: "adapter \<Rightarrow> string \<Rightarrow> store \<Rightarrow> (exn + bool) \<times> store" where
  "delete_activity self activity_name s =
     (case not_collection self of
        Inl e \<Rightarrow> (Inl e, s)
      | Inr True \<Rightarrow> (Inr False, s)
      | Inr False \<Rightarrow>
          (case coll_delete_one activity_name s of
             (Inl e, s') \<Rightarrow> (Inr False, s')
           | (Inr deleted_count, s') \<Rightarrow> (Inr (deleted_count > 0), s')))"

definition update_activity :: "adapter \<Rightarrow> string \<Rightarrow> doc \<Rightarrow> store \<Rightarrow> (exn + bool) \<times> store" where
  "update_activity self activity_name updates s =
     (case not_collection self of
        Inl e \<Rightarrow> (Inl e, s)
      | Inr True \<Rightarrow> (Inr False, s)
      | Inr False \<Rightarrow>
          (case coll_update_one activity_name (Set updates) s of
             (Inl e, s') \<Rightarrow> (Inr False, s')
           | (Inr modified_count, s') \<Rightarrow> (Inr (modified_count > 0), s')))"

section \<open>The request handlers of \<^verbatim>\<open>src/app.py\<close>\<close>

text \<open>
  A handler returns a message, raises \<^verbatim>\<open>HTTPException\<close> with a status code and a detail,
  or lets another exception escape to the framework (\<open>Unhandled\<close>). The test
  \<^verbatim>\<open>if not activity\<close> is true for \<^verbatim>\<open>None\<close> and for the empty dictionary.
\<close>

datatype response = Ok string | HTTPException nat string | Unhandled exn

text \<open>\<^verbatim>\<open>activity.get("participants", [])\<close>\<close>

definition participants_of :: "doc \<Rightarrow> val" where
  "participants_of activity =
     (case map_of activity ''participants'' of None \<Rightarrow> VList [] | Some v \<Rightarrow> v)"

definition signup_for_activity :: "adapter \<Rightarrow> string \<Rightarrow> string \<Rightarrow> store \<Rightarrow> response \<times> store" where
  "signup_for_activity self activity_name email s =
     (case get_activity self activity_name s of
        (Inl e, s1) \<Rightarrow> (Unhandled e, s1)
      | (Inr None, s1) \<Rightarrow> (HTTPException 404 ''Activity not found'', s1)
      | (Inr (Some activity), s1) \<Rightarrow>
          if activity = [] then (HTTPException 404 ''Activity not found'', s1)
          else
            (case py_in email (participants_of activity) of
               Inl e \<Rightarrow> (Unhandled e, s1)
             | Inr True \<Rightarrow> (HTTPException 400 ''Student is already signed up'', s1)
             | Inr False \<Rightarrow>
                 (case add_participant self activity_name email s1 of
                    (Inl e, s2) \<Rightarrow> (Unhandled e, s2)
                  | (Inr True, s2) \<Rightarrow>
                      (Ok (''Signed up '' @ email @ '' for '' @ activity_name), s2)
                  | (Inr False, s2) \<Rightarrow>
                      (HTTPException 500 ''Failed to sign up student'', s2))))"

definition unregister_from_activity :: "adapter \<Rightarrow> string \<Rightarrow> string \<Rightarrow> store \<Rightarrow> response \<times> store" where
  "unregister_from_activity self activity_name email s =
     (case get_activity self activity_name s of
        (Inl e, s1) \<Rightarrow> (Unhandled e, s1)
      | (Inr None, s1) \<Rightarrow> (HTTPException 404 ''Activity not found'', s1)
      | (Inr (Some activity), s1) \<Rightarrow>
          if activity = [] then (HTTPException 404 ''Activity not found'', s1)
          else
            (case py_in email (participants_of activity) of
               Inl e \<Rightarrow> (Unhandled e, s1)
             | Inr False \<Rightarrow>
                 (HTTPException 400 ''Student is not signed up for this activity'', s1)
             | Inr True \<Rightarrow>
                 (case remove_participant self activity_name email s1 of
                    (Inl e, s2) \<Rightarrow> (Unhandled e, s2)
                  | (Inr True, s2) \<Rightarrow>
                      (Ok (''Unregistered '' @ email @ '' from '' @ activity_name), s2)
                  | (Inr False, s2) \<Rightarrow>
                      (HTTPException 500 ''Failed to unregister student'', s2))))"

section \<open>The seed script \<^verbatim>\<open>migrate_to_mongo.py\<close>\<close>

definition INITIAL_ACTIVITIES :: "(string \<times> doc) list" where
  "INITIAL_ACTIVITIES =
    [
     (''Chess Club'',
       [(''description'', VStr ''Learn strategies and compete in chess tournaments''),
        (''schedule'', VStr ''Fridays, 3:30 PM - 5:00 PM''),
        (''max_participants'', VInt 12),
        (''participants'', VList [VStr ''michael@mergington.edu'', VStr ''daniel@mergington.edu''])]),
     (''Programming Class'',
       [(''description'', VStr ''Learn programming fundamentals and build software projects''),
        (''schedule'', VStr ''Tuesdays and Thursdays, 3:30 PM - 4:30 PM''),
        (''max_participants'', VInt 20),
        (''participants'', VList [VStr ''emma@mergington.edu'', VStr ''sophia@mergington.edu''])]),
     (''Gym Class'',
       [(''description'', VStr ''Physical education and sports activities''),
        (''schedule'', VStr ''Mondays, Wednesdays, Fridays, 2:00 PM - 3:00 PM''),
        (''max_participants'', VInt 30),
        (''participants'', VList [VStr ''john@mergington.edu'', VStr ''olivia@mergington.edu''])]),
     (''Soccer Team'',
       [(''description'', VStr ''Join the school soccer team and compete in matches''),
        (''schedule'', VStr ''Tuesdays and Thursdays, 4:00 PM - 5:30 PM''),
        (''max_participants'', VInt 22),
        (''participants'', VList [VStr ''liam@mergington.edu'', VStr ''noah@mergington.edu''])]),
     (''Basketball Team'',
       [(''description'', VStr ''Practice and play basketball with the school team''),
        (''schedule'', VStr ''Wednesdays and Fridays, 3:30 PM - 5:00 PM''),
        (''max_participants'', VInt 15),
        (''participants'', VList [VStr ''ava@mergington.edu'', VStr ''mia@mergington.edu''])]),
     (''Art Club'',
       [(''description'', VStr ''Explore your creativity through painting and drawing''),
        (''schedule'', VStr ''Thursdays, 3:30 PM - 5:00 PM''),
        (''max_participants'', VInt 15),
        (''participants'', VList [VStr ''amelia@mergington.edu'', VStr ''harper@mergington.edu''])]),
     (''Drama Club'',
       [(''description'', VStr ''Act, direct, and produce plays and performances''),
        (''schedule'', VStr ''Mondays and Wednesdays, 4:00 PM - 5:30 PM''),
        (''max_participants'', VInt 20),
        (''participants'', VList [VStr ''ella@mergington.edu'', VStr ''scarlett@mergington.edu''])]),
     (''Math Club'',
       [(''description'', VStr ''Solve challenging problems and participate in math competitions''),
        (''schedule'', VStr ''Tuesdays, 3:30 PM - 4:30 PM''),
        (''max_participants'', VInt 10),
        (''participants'', VList [VStr ''james@mergington.edu'', VStr ''benjamin@mergington.edu''])]),
     (''Debate Team'',
       [(''description'', VStr ''Develop public speaking and argumentation skills''),
        (''schedule'', VStr ''Fridays, 4:00 PM - 5:30 PM''),
        (''max_participants'', VInt 12),
        (''participants'', VList [VStr ''charlotte@mergington.edu'', VStr ''henry@mergington.edu''])])
    ]"

text \<open>The lines the script prints, without their decoration.\<close>

datatype line =
    Starting
  | ConnectFailed
  | Cleared
  | Created string
  | Failed string
  | Complete nat nat

text \<open>The loop over \<^verbatim>\<open>INITIAL_ACTIVITIES.items()\<close>. An exception that leaves
  \<^verbatim>\<open>create_activity\<close> ends the loop and leaves \<^verbatim>\<open>migrate\<close>.\<close>

fun load :: "adapter \<Rightarrow> (string \<times> doc) list \<Rightarrow> nat \<Rightarrow> line list \<Rightarrow> store
    \<Rightarrow> (exn + nat) \<times> line list \<times> store" where
  "load self [] success_count out s = (Inr success_count, out, s)"
| "load self (item # items) success_count out s =
     (case create_activity self (fst item) (snd item) s of
        (Inl e, s') \<Rightarrow> (Inl e, out, s')
      | (Inr True, s') \<Rightarrow>
          load self items (success_count + 1) (out @ [Created (fst item)]) s'
      | (Inr False, s') \<Rightarrow>
          load self items success_count (out @ [Failed (fst item)]) s')"

text \<open>
  \<^verbatim>\<open>migrate\<close>: the call \<^verbatim>\<open>db.activities_collection.delete_many({})\<close> stands outside any
  \<^verbatim>\<open>try\<close> and behind no guard, so its fault leaves \<^verbatim>\<open>migrate\<close> as an exception.
\<close>

definition migrate :: "adapter \<Rightarrow> store \<Rightarrow> (exn + bool) \<times> line list \<times> adapter \<times> store" where
  "migrate self s =
     (case connect self s of
        (False, self1, s1) \<Rightarrow> (Inr False, [Starting, ConnectFailed], self1, s1)
      | (True, self1, s1) \<Rightarrow>
          (case activities_collection self1 of
             None \<Rightarrow> (Inl AttributeError, [Starting], self1, s1)
           | Some c \<Rightarrow>
               (case coll_delete_many s1 of
                  (Inl e, s2) \<Rightarrow> (Inl e, [Starting], self1, s2)
                | (Inr n, s2) \<Rightarrow>
                    (case load self1 INITIAL_ACTIVITIES 0 [Starting, Cleared] s2 of
                       (Inl e, out, s3) \<Rightarrow> (Inl e, out, self1, s3)
                     | (Inr success_count, out, s3) \<Rightarrow>
                         (case close self1 s3 of
                            (self2, s4) \<Rightarrow>
                              (Inr (success_count = length INITIAL_ACTIVITIES),
                               out @ [Complete success_count (length INITIAL_ACTIVITIES)],
                               self2, s4))))))"

text \<open>\<^verbatim>\<open>sys.exit(0 if success else 1)\<close>; an uncaught exception ends the interpreter with
  status 1.\<close>

fun exit_status :: "exn + bool \<Rightarrow> nat" where
  "exit_status (Inr True) = 0"
| "exit_status (Inr False) = 1"
| "exit_status (Inl e) = 1"

definition main :: "adapter \<Rightarrow> store \<Rightarrow> nat \<times> line list \<times> store" where
  "main self s =
     (case migrate self s of
        (success, out, self', s') \<Rightarrow> (exit_status success, out, s'))"

section \<open>Describing the environment\<close>

text \<open>
  \<open>fault_at s i\<close> is the outcome the environment holds for the \<open>i\<close>-th coming store call;
  \<open>no_fault n s\<close> says that the next \<open>n\<close> store calls complete.
\<close>

definition fault_at :: "store \<Rightarrow> nat \<Rightarrow> exn option" where
  "fault_at s i = (if i < length (faults s) then faults s ! i else None)"

definition no_fault :: "nat \<Rightarrow> store \<Rightarrow> bool" where
  "no_fault n s = list_all (\<lambda>i. fault_at s i = None) [0..<n]"

text \<open>
  Some step of \<^verbatim>\<open>connect\<close> raises: one of its five store calls faults, or the index cannot
  be built because stored documents share a name.
\<close>

definition step_fails :: "store \<Rightarrow> bool" where
  "step_fails s =
     (\<not> no_fault 5 s \<or> (\<not> name_index s \<and> \<not> distinct (map name_of (docs s))))"

text \<open>A store nobody has connected to yet, behind a driver of the given kind, and the
  adapter as a successful \<^verbatim>\<open>connect\<close> to it leaves it.\<close>

definition fresh_store :: "truth \<Rightarrow> exn option list \<Rightarrow> doc list \<Rightarrow> store" where
  "fresh_store h fs ds =
     \<lparr>docs = ds, name_index = False, handles = h, faults = fs, trace = []\<rparr>"

definition connected :: "truth \<Rightarrow> adapter" where
  "connected h =
     \<lparr>client = Some MongoClient, db = Some Database,
      activities_collection = Some (Collection h)\<rparr>"

text \<open>
  The data model's reading of a stored activity: its participants are a list of emails
  (none when the field is missing). \<open>has_roster\<close> says that the field, if present, is a
  list.
\<close>

definition has_roster :: "doc \<Rightarrow> bool" where
  "has_roster d = (case participants_of d of VList xs \<Rightarrow> True | _ \<Rightarrow> False)"

definition roster :: "doc \<Rightarrow> val list" where
  "roster d = (case participants_of d of VList xs \<Rightarrow> xs | _ \<Rightarrow> [])"

text \<open>Reading the seed script's output, and the documents it sends to the store.\<close>

fun is_created :: "line \<Rightarrow> bool" where
  "is_created (Created n) = True"
| "is_created l = False"

fun is_failed :: "line \<Rightarrow> bool" where
  "is_failed (Failed n) = True"
| "is_failed l = False"

definition seed_docs :: "doc list" where
  "seed_docs = map (\<lambda>item. (''name'', VStr (fst item)) # snd item) INITIAL_ACTIVITIES"

text \<open>An attribute dictionary as \<^verbatim>\<open>create_activity\<close> expects it: keys occur once,
  neither \<^verbatim>\<open>name\<close> nor \<^verbatim>\<open>_id\<close> is among them, and the values can be encoded.\<close>

definition well_formed :: "doc \<Rightarrow> bool" where
  "well_formed d =
     (distinct (map fst d) \<and> ''name'' \<notin> set (map fst d) \<and> ''_id'' \<notin> set (map fst d)
      \<and> encodable_doc d)"

text \<open>A store that already holds an activity from an earlier use.\<close>

definition old_store :: "truth \<Rightarrow> exn option list \<Rightarrow> store" where
  "old_store h fs = fresh_store h fs [[(''_id'', VOid 7), (''name'', VStr ''Knitting'')]]"

section \<open>Properties\<close>


subsection \<open>Store calls and faults\<close>

lemma begin_call_simps [simp]:
  "docs (begin_call c s) = docs s"
  "name_index (begin_call c s) = name_index s"
  "handles (begin_call c s) = handles s"
  "faults (begin_call c s) = tl (faults s)"
  "trace (begin_call c s) = trace s @ [c]"
  by (simp_all add: begin_call_def)

lemma next_fault_eq: "next_fault s = fault_at s 0"
  by (cases "faults s") (simp_all add: next_fault_def fault_at_def)

lemma fault_at_begin_call [simp]: "fault_at (begin_call c s) i = fault_at s (Suc i)"
  by (cases "faults s") (simp_all add: fault_at_def)

lemma fault_at_update [simp]:
  "fault_at (s\<lparr>docs := ds\<rparr>) i = fault_at s i"
  "fault_at (s\<lparr>name_index := b\<rparr>) i = fault_at s i"
  "fault_at (s\<lparr>trace := t\<rparr>) i = fault_at s i"
  by (simp_all add: fault_at_def)

lemma no_fault_unfold: "no_fault n s \<longleftrightarrow> (\<forall>i<n. fault_at s i = None)"
  by (auto simp: no_fault_def list_all_iff)

lemma no_fault_0 [simp]: "no_fault 0 s"
  by (simp add: no_fault_def)

subsection \<open>Dictionaries and documents\<close>

lemma dict_set_new: "k \<notin> fst ` set d \<Longrightarrow> dict_set k v d = d @ [(k, v)]"
  by (induction d) auto

lemma dict_merge_disjoint:
  "distinct (map fst u) \<Longrightarrow> fst ` set d \<inter> fst ` set u = {} \<Longrightarrow> dict_merge d u = d @ u"
proof (induction u arbitrary: d)
  case Nil
  then show ?case by (simp add: dict_merge_def)
next
  case (Cons p u)
  have "dict_merge d (p # u) = dict_merge (dict_set (fst p) (snd p) d) u"
    by (simp add: dict_merge_def)
  also have "dict_set (fst p) (snd p) d = d @ [p]"
    using Cons.prems(2) by (subst dict_set_new) auto
  also have "dict_merge (d @ [p]) u = (d @ [p]) @ u"
    using Cons.prems by (intro Cons.IH) auto
  finally show ?case by simp
qed

lemma dict_pop_Nil [simp]: "dict_pop k [] = []"
  by (simp add: dict_pop_def)

lemma dict_pop_Cons:
  "dict_pop k (p # d) = (if fst p = k then dict_pop k d else p # dict_pop k d)"
  by (simp add: dict_pop_def)

lemma dict_pop_absent: "k \<notin> fst ` set d \<Longrightarrow> dict_pop k d = d"
  by (induction d) (auto simp: dict_pop_def)

lemma map_of_absent: "k \<notin> fst ` set d \<Longrightarrow> map_of d k = None"
  by (simp add: map_of_eq_None_iff)

lemma map_of_dict_set: "map_of (dict_set k v d) = (map_of d)(k \<mapsto> v)"
  by (induction d) (auto simp: fun_eq_iff)

lemma map_of_snoc_new: "map_of d k = None \<Longrightarrow> map_of (d @ [(k, v)]) = (map_of d)(k \<mapsto> v)"
  by (auto simp: fun_eq_iff map_add_def split: option.splits)

lemma map_of_dict_pop: "k' \<noteq> k \<Longrightarrow> map_of (dict_pop k d) k' = map_of d k'"
  by (induction d) (auto simp: dict_pop_def)

lemma map_of_dict_merge_other: "k \<notin> fst ` set u \<Longrightarrow> map_of (dict_merge d u) k = map_of d k"
proof (induction u arbitrary: d)
  case Nil
  then show ?case by (simp add: dict_merge_def)
next
  case (Cons p u)
  have "dict_merge d (p # u) = dict_merge (dict_set (fst p) (snd p) d) u"
    by (simp add: dict_merge_def)
  then show ?case
    using Cons by (simp add: map_of_dict_set)
qed

lemma find_append:
  "find P (xs @ ys) = (case find P xs of None \<Rightarrow> find P ys | Some x \<Rightarrow> Some x)"
  by (induction xs) auto

lemma find_None_iff_list_ex: "find P xs = None \<longleftrightarrow> \<not> list_ex P xs"
  by (auto simp: find_None_iff list_ex_iff)

lemma find_Some_holds: "find P xs = Some x \<Longrightarrow> P x \<and> x \<in> set xs"
  by (induction xs) (auto split: if_splits)

lemma find_replace_first:
  "find P xs = Some x \<Longrightarrow> P y \<Longrightarrow> find P (replace_first P y xs) = Some y"
  by (induction xs) (auto split: if_splits)

lemma set_replace_first: "set (replace_first P y xs) \<subseteq> insert y (set xs)"
  by (induction xs) auto

lemma set_remove_first: "set (remove_first P xs) \<subseteq> set xs"
  by (induction xs) auto

lemma distinct_replace_first:
  assumes "distinct (map f xs)" and "find P xs = Some x"
    and "f y = f x \<or> f y \<notin> set (map f xs)"
  shows "distinct (map f (replace_first P y xs))"
  using assms
proof (induction xs)
  case Nil
  then show ?case by simp
next
  case (Cons a xs)
  show ?case
  proof (cases "P a")
    case True
    then show ?thesis
      using Cons.prems by auto
  next
    case False
    then have x: "find P xs = Some x" and xin: "x \<in> set xs"
      using Cons.prems(2) find_Some_holds [of P xs x] by simp_all
    have "f a \<noteq> f y"
      using Cons.prems(1,3) xin by auto
    moreover have "f a \<notin> f ` set xs"
      using Cons.prems(1) by simp
    ultimately have "f a \<notin> f ` set (replace_first P y xs)"
      using set_replace_first [of P y xs] by auto
    moreover have "distinct (map f (replace_first P y xs))"
      using Cons.prems x by (intro Cons.IH) auto
    ultimately show ?thesis
      using False by simp
  qed
qed

lemma distinct_remove_first:
  "distinct (map f xs) \<Longrightarrow> distinct (map f (remove_first P xs))"
proof (induction xs)
  case Nil
  then show ?case by simp
next
  case (Cons a xs)
  then show ?case
    using set_remove_first [of P xs] by auto
qed

lemma next_oid_bound: "d \<in> set ds \<Longrightarrow> oid_bound d \<le> next_oid ds"
  by (induction ds) auto

lemma next_oid_fresh: "id_clash ds ((''_id'', VOid (next_oid ds)) # d) = False"
proof -
  have "map_of d' ''_id'' \<noteq> Some (VOid (next_oid ds))" if "d' \<in> set ds" for d'
  proof
    assume "map_of d' ''_id'' = Some (VOid (next_oid ds))"
    then have "oid_bound d' = Suc (next_oid ds)"
      by (simp add: oid_bound_def)
    with next_oid_bound [OF that] show False by simp
  qed
  then show ?thesis
    by (fastforce simp: id_clash_def)
qed

lemma next_oid_append: "next_oid (ds @ [d]) = max (next_oid ds) (oid_bound d)"
  by (induction ds) auto

lemma name_clash_iff:
  "name_of d = Some (VStr n) \<Longrightarrow> name_clash ds d \<longleftrightarrow> list_ex (matches n) ds"
  by (force simp: name_clash_def matches_def list_ex_iff)

lemma name_of_with_id: "name_of (with_id ds d) = name_of d"
  by (simp add: with_id_def name_of_def map_of_dict_pop split: option.splits)

lemma pop_stored:
  assumes "well_formed d"
  shows "dict_pop ''_id'' ((''_id'', i) # (''name'', v) # d) = (''name'', v) # d"
    and "dict_pop ''_id'' (dict_pop ''name'' ((''_id'', i) # (''name'', v) # d)) = d"
proof -
  have "dict_pop ''_id'' d = d" "dict_pop ''name'' d = d"
    using assms by (simp_all add: well_formed_def dict_pop_absent)
  then show "dict_pop ''_id'' ((''_id'', i) # (''name'', v) # d) = (''name'', v) # d"
    and "dict_pop ''_id'' (dict_pop ''name'' ((''_id'', i) # (''name'', v) # d)) = d"
    by (simp_all add: dict_pop_Cons)
qed

lemma matches_pop_nonempty: "matches n d \<Longrightarrow> dict_pop ''_id'' d \<noteq> []"
proof -
  assume "matches n d"
  then have "map_of (dict_pop ''_id'' d) ''name'' = Some (VStr n)"
    by (simp add: matches_def name_of_def map_of_dict_pop)
  then show ?thesis by auto
qed

lemma participants_of_pop: "participants_of (dict_pop ''_id'' d) = participants_of d"
  by (simp add: participants_of_def map_of_dict_pop)

lemma py_in_roster: "has_roster d \<Longrightarrow> py_in e (participants_of d) = Inr (VStr e \<in> set (roster d))"
  by (cases "participants_of d") (simp_all add: has_roster_def roster_def)

subsection \<open>The guard\<close>

lemma not_collection_None: "activities_collection self = None \<Longrightarrow> not_collection self = Inr True"
  by (simp add: not_collection_def)

lemma not_collection_handle:
  "not_collection self = Inr False \<longleftrightarrow> activities_collection self = Some (Collection Truthy)"
  "not_collection self = Inl e
     \<longleftrightarrow> activities_collection self = Some (Collection Refuses) \<and> e = NotImplementedError"
  by (auto simp: not_collection_def split: option.splits coll_h.splits truth.splits)

lemma not_collection_connected [simp]:
  "not_collection (connected Truthy) = Inr False"
  "not_collection (connected Refuses) = Inl NotImplementedError"
  by (simp_all add: not_collection_def connected_def)

text \<open>A guard that raises stops every operation before it reaches the store.\<close>

lemma guard_raises:
  assumes "not_collection self = Inl x"
  shows "get_all_activities self s = (Inl x, s)"
    and "get_activity self n s = (Inl x, s)"
    and "create_activity self n d s = (Inl x, s)"
    and "add_participant self n e s = (Inl x, s)"
    and "remove_participant self n e s = (Inl x, s)"
    and "delete_activity self n s = (Inl x, s)"
    and "update_activity self n d s = (Inl x, s)"
  using assms
  by (simp_all add: get_all_activities_def get_activity_def create_activity_def
      add_participant_def remove_participant_def delete_activity_def update_activity_def)

subsection \<open>The adapter without a collection handle\<close>

lemma disconnected_reads:
  assumes "activities_collection self = None"
  shows "get_all_activities self s = (Inr [], s)" and "get_activity self n s = (Inr None, s)"
  using assms by (simp_all add: get_all_activities_def get_activity_def not_collection_None)

lemma disconnected_mutations:
  assumes "activities_collection self = None"
  shows "create_activity self n d s = (Inr False, s)"
    and "add_participant self n e s = (Inr False, s)"
    and "remove_participant self n e s = (Inr False, s)"
    and "delete_activity self n s = (Inr False, s)"
    and "update_activity self n d s = (Inr False, s)"
  using assms
  by (simp_all add: create_activity_def add_participant_def remove_participant_def
      delete_activity_def update_activity_def not_collection_None)

subsection \<open>Faults in the adapter's operations\<close>

text \<open>
  Past the guard, the five mutating operations turn a fault of their store call into
  \<^verbatim>\<open>False\<close> and leave the documents as they were; the two reading operations pass the
  fault on.
\<close>

lemma mutations_catch_fault:
  assumes "not_collection self = Inr False" and "fault_at s 0 = Some e"
  shows "fst (create_activity self n d s) = Inr False
          \<and> docs (snd (create_activity self n d s)) = docs s"
    and "fst (add_participant self n m s) = Inr False
          \<and> docs (snd (add_participant self n m s)) = docs s"
    and "fst (remove_participant self n m s) = Inr False
          \<and> docs (snd (remove_participant self n m s)) = docs s"
    and "fst (delete_activity self n s) = Inr False
          \<and> docs (snd (delete_activity self n s)) = docs s"
    and "fst (update_activity self n d s) = Inr False
          \<and> docs (snd (update_activity self n d s)) = docs s"
  using assms
  by (simp_all add: create_activity_def add_participant_def remove_participant_def
      delete_activity_def update_activity_def coll_insert_one_def coll_update_one_def
      coll_delete_one_def next_fault_eq)

lemma reads_pass_fault_on:
  assumes "not_collection self = Inr False" and "fault_at s 0 = Some e"
  shows "fst (get_all_activities self s) = Inl e" and "fst (get_activity self n s) = Inl e"
  using assms
  by (simp_all add: get_all_activities_def get_activity_def coll_find_def coll_find_one_def
      next_fault_eq)

text \<open>
  C1 at a failing input: after a successful connect the next store call faults.
  \<^verbatim>\<open>get_all_activities\<close> and \<^verbatim>\<open>get_activity\<close> make their store call outside any \<^verbatim>\<open>try\<close>,
  so the fault leaves them as an exception instead of a typed result. Behind a driver
  whose collection objects refuse truth testing, the guard raises before the store is
  called: an exception leaves the operations there too.
\<close>

theorem read_fault_escapes:
  "fst (connect init (fresh_store Truthy [None, None, None, None, None, Some PyMongoError] []))
      = True
   \<and> fst (snd (connect init
        (fresh_store Truthy [None, None, None, None, None, Some PyMongoError] [])))
      = connected Truthy
   \<and> fst (get_all_activities (connected Truthy)
        (snd (snd (connect init
          (fresh_store Truthy [None, None, None, None, None, Some PyMongoError] [])))))
      = Inl PyMongoError
   \<and> fst (get_activity (connected Truthy) ''Chess Club''
        (snd (snd (connect init
          (fresh_store Truthy [None, None, None, None, None, Some PyMongoError] [])))))
      = Inl PyMongoError
   \<and> fst (connect init (fresh_store Refuses [None, None, None, None, None, Some PyMongoError] []))
      = True
   \<and> fst (snd (connect init
        (fresh_store Refuses [None, None, None, None, None, Some PyMongoError] [])))
      = connected Refuses
   \<and> fst (get_all_activities (connected Refuses)
        (snd (snd (connect init
          (fresh_store Refuses [None, None, None, None, None, Some PyMongoError] [])))))
      = Inl NotImplementedError
   \<and> fst (get_activity (connected Refuses) ''Chess Club''
        (snd (snd (connect init
          (fresh_store Refuses [None, None, None, None, None, Some PyMongoError] [])))))
      = Inl NotImplementedError"
  by code_simp

subsection \<open>Connecting\<close>

lemma connect_succeeds_iff: "fst (connect self s) \<longleftrightarrow> \<not> step_fails s"
  by (simp add: connect_def step_fails_def plain_call_def coll_create_index_def Let_def
      next_fault_eq no_fault_unfold eval_nat_numeral less_Suc_eq all_conj_distrib
      split: option.splits)

lemma connect_handle:
  "activities_collection (fst (snd (connect self s))) =
     (if no_fault 4 s then Some (Collection (handles s)) else activities_collection self)"
  by (simp add: connect_def plain_call_def coll_create_index_def Let_def next_fault_eq
      no_fault_unfold eval_nat_numeral less_Suc_eq all_conj_distrib split: option.splits)

lemma connect_success_state:
  assumes "fst (connect self s)"
  shows "activities_collection (fst (snd (connect self s))) = Some (Collection (handles s))"
    and "client (fst (snd (connect self s))) = Some MongoClient"
    and "trace (snd (snd (connect self s)))
          = trace s @ [NewClient, Ping, GetDatabase, GetCollection, CreateIndex]"
    and "fault_at (snd (snd (connect self s))) i = fault_at s (Suc (Suc (Suc (Suc (Suc i)))))"
    and "name_index (snd (snd (connect self s)))"
    and "docs (snd (snd (connect self s))) = docs s"
  using assms
  by (simp_all add: connect_def plain_call_def coll_create_index_def Let_def
      split: option.splits if_splits)

lemma connect_establishes_uniqueness:
  assumes "fst (connect self s)" and "name_index s \<longrightarrow> distinct (map name_of (docs s))"
  shows "name_index (snd (snd (connect self s)))"
    and "distinct (map name_of (docs (snd (snd (connect self s)))))"
  using assms
  by (simp_all add: connect_def plain_call_def coll_create_index_def Let_def
      split: option.splits if_splits)

text \<open>
  C2, as the code has it: whenever a step of \<^verbatim>\<open>connect\<close> raises, \<^verbatim>\<open>connect\<close> returns
  \<^verbatim>\<open>False\<close>. When the failing step comes before the collection handle is assigned
  (client construction, ping, database or collection lookup), the handle is what it was
  before the call, so an adapter that held none stays disconnected: empty reads, \<^verbatim>\<open>None\<close>
  lookups, \<^verbatim>\<open>False\<close> mutations, the store untouched.
\<close>

theorem connect_failure:
  assumes "step_fails s"
  shows "fst (connect self s) = False
    \<and> (\<not> no_fault 4 s \<longrightarrow>
          activities_collection (fst (snd (connect self s))) = activities_collection self)
    \<and> (\<not> no_fault 4 s \<and> activities_collection self = None \<longrightarrow>
          get_all_activities (fst (snd (connect self s))) t = (Inr [], t)
        \<and> get_activity (fst (snd (connect self s))) n t = (Inr None, t)
        \<and> create_activity (fst (snd (connect self s))) n d t = (Inr False, t)
        \<and> add_participant (fst (snd (connect self s))) n e t = (Inr False, t)
        \<and> remove_participant (fst (snd (connect self s))) n e t = (Inr False, t)
        \<and> delete_activity (fst (snd (connect self s))) n t = (Inr False, t)
        \<and> update_activity (fst (snd (connect self s))) n d t = (Inr False, t))"
proof -
  have ret: "fst (connect self s) = False"
    using assms by (simp add: connect_succeeds_iff)
  have off: "activities_collection (fst (snd (connect self s))) = None"
    if "\<not> no_fault 4 s" "activities_collection self = None"
    using that by (simp add: connect_handle)
  show ?thesis
    using ret off by (simp add: connect_handle disconnected_reads disconnected_mutations)
qed

text \<open>The ping times out on a first connect: the adapter stays disconnected, whatever the
  driver.\<close>

theorem connect_failure_witness:
  "step_fails (fresh_store Refuses [None, Some ServerSelectionTimeoutError] [])
   \<and> \<not> no_fault 4 (fresh_store Refuses [None, Some ServerSelectionTimeoutError] [])
   \<and> fst (connect init (fresh_store Refuses [None, Some ServerSelectionTimeoutError] [])) = False
   \<and> activities_collection
        (fst (snd (connect init (fresh_store Refuses [None, Some ServerSelectionTimeoutError] []))))
      = None
   \<and> get_all_activities
        (fst (snd (connect init (fresh_store Refuses [None, Some ServerSelectionTimeoutError] []))))
        (fresh_store Refuses [] [[(''name'', VStr ''Chess Club'')]])
      = (Inr [], fresh_store Refuses [] [[(''name'', VStr ''Chess Club'')]])
   \<and> create_activity
        (fst (snd (connect init (fresh_store Refuses [None, Some ServerSelectionTimeoutError] []))))
        ''Art Club'' []
        (fresh_store Refuses [] [[(''name'', VStr ''Chess Club'')]])
      = (Inr False, fresh_store Refuses [] [[(''name'', VStr ''Chess Club'')]])"
proof -
  have h: "step_fails (fresh_store Refuses [None, Some ServerSelectionTimeoutError] [])"
    by code_simp
  have q: "\<not> no_fault 4 (fresh_store Refuses [None, Some ServerSelectionTimeoutError] [])"
    by code_simp
  have i: "activities_collection init = None"
    by (simp add: init_def)
  show ?thesis
    using h q i
      connect_failure [OF h, where self = init
          and t = "fresh_store Refuses [] [[(''name'', VStr ''Chess Club'')]]"
          and n = "''Art Club''" and d = "[]"]
    by simp
qed

text \<open>
  C2 as stated fails: the index creation faults on a first connect over a collection that
  holds one activity. \<^verbatim>\<open>connect\<close> returns \<^verbatim>\<open>False\<close>, yet the adapter holds the collection
  handle and the next read returns the activity, not the empty mapping; behind a driver
  whose collection objects refuse truth testing the next read raises.
\<close>

theorem connect_failure_keeps_handle:
  "fst (connect init (fresh_store Truthy [None, None, None, None, Some PyMongoError]
          [[(''_id'', VOid 0), (''name'', VStr ''Chess Club'')]])) = False
   \<and> fst (snd (connect init (fresh_store Truthy [None, None, None, None, Some PyMongoError]
          [[(''_id'', VOid 0), (''name'', VStr ''Chess Club'')]]))) = connected Truthy
   \<and> fst (get_all_activities (connected Truthy)
        (snd (snd (connect init (fresh_store Truthy [None, None, None, None, Some PyMongoError]
          [[(''_id'', VOid 0), (''name'', VStr ''Chess Club'')]])))))
      = Inr [(VStr ''Chess Club'', [])]
   \<and> fst (get_all_activities (connected Truthy)
        (snd (snd (connect init (fresh_store Truthy [None, None, None, None, Some PyMongoError]
          [[(''_id'', VOid 0), (''name'', VStr ''Chess Club'')]])))))
      \<noteq> Inr []
   \<and> fst (connect init (fresh_store Refuses [None, None, None, None, Some PyMongoError]
          [[(''_id'', VOid 0), (''name'', VStr ''Chess Club'')]])) = False
   \<and> fst (snd (connect init (fresh_store Refuses [None, None, None, None, Some PyMongoError]
          [[(''_id'', VOid 0), (''name'', VStr ''Chess Club'')]]))) = connected Refuses
   \<and> fst (get_all_activities (connected Refuses)
        (snd (snd (connect init (fresh_store Refuses [None, None, None, None, Some PyMongoError]
          [[(''_id'', VOid 0), (''name'', VStr ''Chess Club'')]])))))
      = Inl NotImplementedError"
  by code_simp

subsection \<open>Closing\<close>

lemma close_keeps_fields: "fst (close self s) = self"
  by (simp add: close_def split: option.splits)

text \<open>
  C4, as the code has it: for every adapter that holds no collection handle, which is the
  case until a \<^verbatim>\<open>connect\<close> has come as far as assigning one, \<^verbatim>\<open>get_all_activities\<close>
  returns the empty mapping and \<^verbatim>\<open>create_activity\<close> returns \<^verbatim>\<open>False\<close>; neither raises
  nor calls the store. \<^verbatim>\<open>close\<close> changes no field, so the same holds after \<^verbatim>\<open>close\<close> on
  such an adapter.
\<close>

theorem no_handle_ops:
  assumes "activities_collection self = None"
  shows "get_all_activities self s = (Inr [], s)
    \<and> create_activity self n d s = (Inr False, s)
    \<and> activities_collection (fst (close self s)) = None
    \<and> get_all_activities (fst (close self s)) (snd (close self s)) = (Inr [], snd (close self s))
    \<and> create_activity (fst (close self s)) n d (snd (close self s))
        = (Inr False, snd (close self s))"
  using assms
  by (simp add: close_keeps_fields disconnected_reads disconnected_mutations)

theorem no_handle_ops_witness:
  "activities_collection init = None
   \<and> get_all_activities init (fresh_store Refuses [] [[(''name'', VStr ''Chess Club'')]])
       = (Inr [], fresh_store Refuses [] [[(''name'', VStr ''Chess Club'')]])
   \<and> create_activity init ''Art Club'' []
        (fresh_store Refuses [] [[(''name'', VStr ''Chess Club'')]])
       = (Inr False, fresh_store Refuses [] [[(''name'', VStr ''Chess Club'')]])"
proof -
  have h: "activities_collection init = None"
    by (simp add: init_def)
  show ?thesis
    using h
      no_handle_ops [OF h, where s = "fresh_store Refuses [] [[(''name'', VStr ''Chess Club'')]]"
          and n = "''Art Club''" and d = "[]"]
    by simp
qed

text \<open>
  C4 as stated fails: after a successful connect, \<^verbatim>\<open>close\<close> leaves the collection handle
  in place, so both operations still go past the guard's \<^verbatim>\<open>None\<close> case. When the store
  answers, the read returns the stored activity and the create returns \<^verbatim>\<open>True\<close>; when the
  store refuses the call on the closed client, the read raises; behind a driver whose
  collection objects refuse truth testing, both raise at the guard.
\<close>

theorem ops_after_close:
  "fst (connect init
      (fresh_store Truthy [] [[(''_id'', VOid 0), (''name'', VStr ''Chess Club'')]]))
      = True
   \<and> fst (snd (connect init
        (fresh_store Truthy [] [[(''_id'', VOid 0), (''name'', VStr ''Chess Club'')]])))
      = connected Truthy
   \<and> fst (close (connected Truthy) (snd (snd (connect init
        (fresh_store Truthy [] [[(''_id'', VOid 0), (''name'', VStr ''Chess Club'')]])))))
      = connected Truthy
   \<and> fst (get_all_activities (connected Truthy)
        (snd (close (connected Truthy) (snd (snd (connect init
          (fresh_store Truthy [] [[(''_id'', VOid 0), (''name'', VStr ''Chess Club'')]])))))))
      = Inr [(VStr ''Chess Club'', [])]
   \<and> fst (create_activity (connected Truthy) ''Art Club'' []
        (snd (close (connected Truthy) (snd (snd (connect init
          (fresh_store Truthy [] [[(''_id'', VOid 0), (''name'', VStr ''Chess Club'')]])))))))
      = Inr True
   \<and> fst (get_all_activities (connected Truthy)
        (snd (close (connected Truthy) (snd (snd (connect init
          (fresh_store Truthy [None, None, None, None, None, Some PyMongoError]
             [[(''_id'', VOid 0), (''name'', VStr ''Chess Club'')]])))))))
      = Inl PyMongoError
   \<and> fst (snd (connect init
        (fresh_store Refuses [] [[(''_id'', VOid 0), (''name'', VStr ''Chess Club'')]])))
      = connected Refuses
   \<and> fst (close (connected Refuses) (snd (snd (connect init
        (fresh_store Refuses [] [[(''_id'', VOid 0), (''name'', VStr ''Chess Club'')]])))))
      = connected Refuses
   \<and> fst (get_all_activities (connected Refuses)
        (snd (close (connected Refuses) (snd (snd (connect init
          (fresh_store Refuses [] [[(''_id'', VOid 0), (''name'', VStr ''Chess Club'')]])))))))
      = Inl NotImplementedError
   \<and> fst (create_activity (connected Refuses) ''Art Club'' []
        (snd (close (connected Refuses) (snd (snd (connect init
          (fresh_store Refuses [] [[(''_id'', VOid 0), (''name'', VStr ''Chess Club'')]])))))))
      = Inl NotImplementedError"
  by code_simp

subsection \<open>Reading\<close>

lemma get_activity_connected:
  assumes "not_collection self = Inr False" and "fault_at s 0 = None"
  shows "get_activity self n s
     = (Inr (map_option (dict_pop ''_id'') (find (matches n) (docs s))), begin_call (FindOne n) s)"
  using assms
  by (simp add: get_activity_def coll_find_one_def next_fault_eq split: option.splits)

lemma lookup_only:
  assumes "find (matches n) (docs s) = None"
  shows "get_activity self n s =
     (case not_collection self of
        Inl e \<Rightarrow> (Inl e, s)
      | Inr True \<Rightarrow> (Inr None, s)
      | Inr False \<Rightarrow>
          (case fault_at s 0 of
             None \<Rightarrow> (Inr None, begin_call (FindOne n) s)
           | Some e \<Rightarrow> (Inl e, begin_call (FindOne n) s)))"
  using assms
  by (simp add: get_activity_def coll_find_one_def next_fault_eq
      split: option.splits sum.splits bool.splits)

lemma collect_append:
  "collect (xs @ ys) acc = (case collect xs acc of Inl e \<Rightarrow> Inl e | Inr acc' \<Rightarrow> collect ys acc')"
  by (induction xs arbitrary: acc) (auto simp: Let_def split: option.splits)

subsection \<open>Creating and fetching an activity\<close>

lemma create_activity_new:
  assumes "not_collection self = Inr False"
    and "fault_at s 0 = None"
    and "\<not> list_ex (matches n) (docs s)"
    and "well_formed d"
  shows "create_activity self n d s
     = (Inr True, (begin_call (InsertOne ((''name'', VStr n) # d)) s)
          \<lparr>docs := docs s @ [(''_id'', VOid (next_oid (docs s))) # (''name'', VStr n) # d]\<rparr>)"
proof -
  let ?d = "(''name'', VStr n) # d"
  let ?stored = "(''_id'', VOid (next_oid (docs s))) # ?d"
  have merge: "dict_merge [(''name'', VStr n)] d = ?d"
    using assms(4) by (subst dict_merge_disjoint) (auto simp: well_formed_def)
  have enc: "encodable_doc ?d"
    using assms(4) by (simp add: well_formed_def encodable_doc_def)
  have "map_of ?d ''_id'' = None"
    using assms(4) by (simp add: map_of_absent well_formed_def)
  then have stored: "with_id (docs s) ?d = ?stored"
    by (simp add: with_id_def)
  have "\<not> name_clash (docs s) ?stored"
    using assms(3) by (subst name_clash_iff [of _ n]) (simp_all add: name_of_def)
  then have "coll_insert_one ?d s
      = (Inr (), (begin_call (InsertOne ?d) s)\<lparr>docs := docs s @ [?stored]\<rparr>)"
    using assms(2) stored enc next_oid_fresh [of "docs s" ?d]
    by (simp add: coll_insert_one_def next_fault_eq Let_def)
  then show ?thesis
    using assms(1) by (simp add: create_activity_def merge)
qed

lemma create_activity_docs:
  "docs (snd (create_activity self n d s)) =
     (if fst (create_activity self n d s) = Inr True
      then docs s @ [with_id (docs s) (dict_merge [(''name'', VStr n)] d)]
      else docs s)"
  by (simp add: create_activity_def coll_insert_one_def Let_def
      split: option.splits sum.splits bool.splits)

lemma create_activity_True_no_clash:
  "fst (create_activity self n d s) = Inr True \<Longrightarrow> name_index s \<Longrightarrow>
     \<not> name_clash (docs s) (with_id (docs s) (dict_merge [(''name'', VStr n)] d))"
  by (simp add: create_activity_def coll_insert_one_def Let_def
      split: option.splits if_splits sum.splits bool.splits)

lemma create_activity_trace:
  "not_collection self = Inr False \<Longrightarrow>
     trace (snd (create_activity self n d s))
       = trace s @ [InsertOne (dict_merge [(''name'', VStr n)] d)]"
  by (simp add: create_activity_def coll_insert_one_def Let_def split: option.splits)

text \<open>
  What creating and fetching do when the guard lets the calls through and the store calls
  complete: for a name not yet in the collection and encodable attributes without a key
  \<^verbatim>\<open>name\<close> or \<^verbatim>\<open>_id\<close>, \<^verbatim>\<open>get_activity\<close> returns the attributes together with the field
  \<^verbatim>\<open>name\<close>, while the mapping of \<^verbatim>\<open>get_all_activities\<close> holds exactly the attributes.
\<close>

lemma create_then_get:
  assumes "not_collection self = Inr False"
    and "no_fault 2 s"
    and "\<not> list_ex (matches name) (docs s)"
    and "well_formed activity_data"
  shows "fst (create_activity self name activity_data s) = Inr True"
    and "fst (get_activity self name (snd (create_activity self name activity_data s)))
        = Inr (Some ((''name'', VStr name) # activity_data))"
    and "collect (docs s) [] = Inr activities \<Longrightarrow>
         fst (get_all_activities self (snd (create_activity self name activity_data s)))
           = Inr (dict_set (VStr name) activity_data activities)"
proof -
  let ?d = "(''name'', VStr name) # activity_data"
  let ?stored = "(''_id'', VOid (next_oid (docs s))) # ?d"
  let ?s1 = "(begin_call (InsertOne ?d) s)\<lparr>docs := docs s @ [?stored]\<rparr>"
  have f0: "fault_at s 0 = None" and f1: "fault_at ?s1 0 = None"
    using assms(2) by (simp_all add: no_fault_unfold)
  have create: "create_activity self name activity_data s = (Inr True, ?s1)"
    using assms(1) f0 assms(3,4) by (rule create_activity_new)
  have found: "find (matches name) (docs ?s1) = Some ?stored"
    using assms(3)
    by (simp add: find_append find_None_iff_list_ex [symmetric] matches_def name_of_def)
  show "fst (create_activity self name activity_data s) = Inr True"
    using create by simp
  show "fst (get_activity self name (snd (create_activity self name activity_data s)))
        = Inr (Some ?d)"
    using found pop_stored(1) [OF assms(4)] create
    by (simp add: get_activity_connected [OF assms(1) f1])
  show "fst (get_all_activities self (snd (create_activity self name activity_data s)))
           = Inr (dict_set (VStr name) activity_data activities)"
    if "collect (docs s) [] = Inr activities"
    using that assms(1) f1 pop_stored(2) [OF assms(4)] create
    by (simp add: get_all_activities_def coll_find_def next_fault_eq collect_append)
qed

text \<open>
  C3 at a failing input: \<^verbatim>\<open>create_activity('Chess Club', {'description': 'Learn chess'})\<close>
  on a connected adapter over an empty collection, then \<^verbatim>\<open>get_activity('Chess Club')\<close>.
  The fetched value is not exactly the supplied attributes: \<^verbatim>\<open>get_activity\<close> strips the
  field \<^verbatim>\<open>_id\<close> only, so the value also carries the field \<^verbatim>\<open>name\<close>. The sibling
  \<^verbatim>\<open>get_all_activities\<close> strips both and returns exactly the attributes. Behind a driver
  whose collection objects refuse truth testing, the create raises at the guard and
  stores nothing.
\<close>

theorem get_activity_returns_name_field:
  "fst (create_activity (connected Truthy) ''Chess Club''
      [(''description'', VStr ''Learn chess'')] (fresh_store Truthy [] [])) = Inr True
   \<and> fst (get_activity (connected Truthy) ''Chess Club''
        (snd (create_activity (connected Truthy) ''Chess Club''
          [(''description'', VStr ''Learn chess'')] (fresh_store Truthy [] []))))
      = Inr (Some [(''name'', VStr ''Chess Club''), (''description'', VStr ''Learn chess'')])
   \<and> fst (get_activity (connected Truthy) ''Chess Club''
        (snd (create_activity (connected Truthy) ''Chess Club''
          [(''description'', VStr ''Learn chess'')] (fresh_store Truthy [] []))))
      \<noteq> Inr (Some [(''description'', VStr ''Learn chess'')])
   \<and> fst (get_all_activities (connected Truthy)
        (snd (create_activity (connected Truthy) ''Chess Club''
          [(''description'', VStr ''Learn chess'')] (fresh_store Truthy [] []))))
      = Inr [(VStr ''Chess Club'', [(''description'', VStr ''Learn chess'')])]
   \<and> create_activity (connected Refuses) ''Chess Club''
        [(''description'', VStr ''Learn chess'')] (fresh_store Refuses [] [])
      = (Inl NotImplementedError, fresh_store Refuses [] [])
   \<and> fst (get_activity (connected Refuses) ''Chess Club'' (fresh_store Refuses [] []))
      = Inl NotImplementedError"
  by code_simp

subsection \<open>Uniqueness of activity names\<close>

lemma coll_update_one_unique:
  assumes "name_index s" and "distinct (map name_of (docs s))"
  shows "distinct (map name_of (docs (snd (coll_update_one n u s))))"
proof (cases "fault_at s 0")
  case (Some e)
  then show ?thesis
    using assms(2) by (simp add: coll_update_one_def next_fault_eq Let_def)
next
  case None
  show ?thesis
  proof (cases "find (matches n) (docs s)")
    case absent: None
    then show ?thesis
      using assms(2) None by (simp add: coll_update_one_def next_fault_eq Let_def)
  next
    case (Some d)
    show ?thesis
    proof (cases "apply_update u d")
      case (Inl e)
      then show ?thesis
        using assms(2) None Some by (simp add: coll_update_one_def next_fault_eq Let_def)
    next
      case (Inr d')
      show ?thesis
      proof (cases "d' = d \<or> (name_of d' \<noteq> name_of d \<and> name_clash (docs s) d')")
        case True
        then show ?thesis
          using assms None Some Inr by (auto simp: coll_update_one_def next_fault_eq Let_def)
      next
        case False
        then have "name_of d' = name_of d \<or> name_of d' \<notin> set (map name_of (docs s))"
          by (auto simp: name_clash_def)
        then have "distinct (map name_of (replace_first (matches n) d' (docs s)))"
          using assms(2) Some by (intro distinct_replace_first) auto
        then show ?thesis
          using assms None Some Inr False
          by (auto simp: coll_update_one_def next_fault_eq Let_def)
      qed
    qed
  qed
qed

text \<open>
  With the uniqueness constraint in place, no operation of the adapter makes two documents
  share a name.
\<close>

lemma names_stay_unique:
  assumes "name_index s" and "distinct (map name_of (docs s))"
  shows "distinct (map name_of (docs (snd (create_activity self n d s))))"
    and "distinct (map name_of (docs (snd (add_participant self n e s))))"
    and "distinct (map name_of (docs (snd (remove_participant self n e s))))"
    and "distinct (map name_of (docs (snd (update_activity self n d s))))"
    and "distinct (map name_of (docs (snd (delete_activity self n s))))"
proof -
  show "distinct (map name_of (docs (snd (create_activity self n d s))))"
  proof (cases "fst (create_activity self n d s) = Inr True")
    case True
    then show ?thesis
      using create_activity_True_no_clash [OF True assms(1)] assms(2)
      by (simp add: create_activity_docs name_clash_def)
  next
    case False
    then show ?thesis
      using assms(2) by (simp add: create_activity_docs)
  qed
  show "distinct (map name_of (docs (snd (add_participant self n e s))))"
    using assms(2) coll_update_one_unique [OF assms, of n "AddToSet ''participants'' (VStr e)"]
    by (auto simp: add_participant_def split: option.splits prod.splits sum.splits bool.splits)
  show "distinct (map name_of (docs (snd (remove_participant self n e s))))"
    using assms(2) coll_update_one_unique [OF assms, of n "Pull ''participants'' (VStr e)"]
    by (auto simp: remove_participant_def split: option.splits prod.splits sum.splits bool.splits)
  show "distinct (map name_of (docs (snd (update_activity self n d s))))"
    using assms(2) coll_update_one_unique [OF assms, of n "Set d"]
    by (auto simp: update_activity_def split: option.splits prod.splits sum.splits bool.splits)
  show "distinct (map name_of (docs (snd (delete_activity self n s))))"
    using assms(2) distinct_remove_first [of name_of "docs s" "matches n"]
    by (auto simp: delete_activity_def coll_delete_one_def Let_def
        split: option.splits prod.splits sum.splits bool.splits)
qed

lemma create_activity_result:
  "fst (create_activity self n d s) \<noteq> Inr True \<Longrightarrow>
     fst (create_activity self n d s)
       = (case not_collection self of Inl x \<Rightarrow> Inl x | Inr b \<Rightarrow> Inr False)"
  by (simp add: create_activity_def split: sum.splits bool.splits prod.splits)

text \<open>
  C8, as the code has it: on a collection that carries the uniqueness constraint on
  \<^verbatim>\<open>name\<close>, as a successful \<^verbatim>\<open>connect\<close> leaves it, \<^verbatim>\<open>create_activity\<close> with a name that
  already exists in the collection (and attributes that carry no \<^verbatim>\<open>name\<close> key of their
  own) never reports success and leaves every document as it was: its result is \<^verbatim>\<open>False\<close>,
  or the exception of the guard when the guard raises. Names that are unique stay unique
  under every mutating operation of the adapter.
\<close>

theorem duplicate_create_fails:
  assumes "name_index s"
    and "list_ex (matches name) (docs s)"
    and "''name'' \<notin> fst ` set activity_data"
  shows "fst (create_activity self name activity_data s) \<noteq> Inr True
    \<and> fst (create_activity self name activity_data s)
        = (case not_collection self of Inl x \<Rightarrow> Inl x | Inr b \<Rightarrow> Inr False)
    \<and> docs (snd (create_activity self name activity_data s)) = docs s
    \<and> (distinct (map name_of (docs s)) \<longrightarrow>
         distinct (map name_of (docs (snd (create_activity self n d s))))
       \<and> distinct (map name_of (docs (snd (add_participant self n e s))))
       \<and> distinct (map name_of (docs (snd (remove_participant self n e s))))
       \<and> distinct (map name_of (docs (snd (update_activity self n d s))))
       \<and> distinct (map name_of (docs (snd (delete_activity self n s)))))"
proof -
  let ?d = "dict_merge [(''name'', VStr name)] activity_data"
  have "name_of ?d = Some (VStr name)"
    using assms(3) by (simp add: name_of_def map_of_dict_merge_other)
  then have "name_of (with_id (docs s) ?d) = Some (VStr name)"
    by (simp add: name_of_with_id)
  then have clash: "name_clash (docs s) (with_id (docs s) ?d)"
    using assms(2) by (simp add: name_clash_iff)
  have fails: "fst (create_activity self name activity_data s) \<noteq> Inr True"
    using create_activity_True_no_clash [OF _ assms(1), of self name activity_data] clash
    by blast
  have unchanged: "docs (snd (create_activity self name activity_data s)) = docs s"
    using fails by (simp add: create_activity_docs)
  show ?thesis
    using fails create_activity_result [OF fails] unchanged names_stay_unique [OF assms(1)]
    by simp
qed

text \<open>After a successful connect, the second create of \<^verbatim>\<open>Chess Club\<close> returns \<^verbatim>\<open>False\<close> and
  the stored activity keeps its data.\<close>

theorem duplicate_create_fails_witness:
  "fst (connect init (fresh_store Truthy [] [])) = True
   \<and> fst (create_activity (connected Truthy) ''Chess Club'' [(''max_participants'', VInt 12)]
        (snd (snd (connect init (fresh_store Truthy [] []))))) = Inr True
   \<and> fst (create_activity (connected Truthy) ''Chess Club'' [(''max_participants'', VInt 99)]
        (snd (create_activity (connected Truthy) ''Chess Club'' [(''max_participants'', VInt 12)]
          (snd (snd (connect init (fresh_store Truthy [] []))))))) = Inr False
   \<and> docs (snd (create_activity (connected Truthy) ''Chess Club'' [(''max_participants'', VInt 99)]
        (snd (create_activity (connected Truthy) ''Chess Club'' [(''max_participants'', VInt 12)]
          (snd (snd (connect init (fresh_store Truthy [] []))))))))
      = [[(''_id'', VOid 0), (''name'', VStr ''Chess Club''), (''max_participants'', VInt 12)]]
   \<and> distinct (map name_of
       (docs (snd (create_activity (connected Truthy) ''Chess Club'' [(''max_participants'', VInt 99)]
        (snd (create_activity (connected Truthy) ''Chess Club'' [(''max_participants'', VInt 12)]
          (snd (snd (connect init (fresh_store Truthy [] []))))))))))"
proof -
  let ?s = "snd (create_activity (connected Truthy) ''Chess Club'' [(''max_participants'', VInt 12)]
          (snd (snd (connect init (fresh_store Truthy [] [])))))"
  have c: "fst (connect init (fresh_store Truthy [] [])) = True"
    by code_simp
  have f: "fst (create_activity (connected Truthy) ''Chess Club'' [(''max_participants'', VInt 12)]
        (snd (snd (connect init (fresh_store Truthy [] []))))) = Inr True"
    by code_simp
  have d: "docs ?s
      = [[(''_id'', VOid 0), (''name'', VStr ''Chess Club''), (''max_participants'', VInt 12)]]"
    by code_simp
  have h1: "name_index ?s"
    by code_simp
  have h2: "list_ex (matches ''Chess Club'') (docs ?s)"
    by code_simp
  have h3: "''name'' \<notin> fst ` set [(''max_participants'', VInt 99)]"
    by simp
  have h4: "distinct (map name_of (docs ?s))"
    by (simp add: d)
  have "fst (create_activity (connected Truthy) ''Chess Club'' [(''max_participants'', VInt 99)] ?s)
          = Inr False
      \<and> docs (snd (create_activity (connected Truthy) ''Chess Club''
            [(''max_participants'', VInt 99)] ?s)) = docs ?s
      \<and> distinct (map name_of (docs (snd (create_activity (connected Truthy) ''Chess Club''
            [(''max_participants'', VInt 99)] ?s))))"
    using h4 duplicate_create_fails [OF h1 h2 h3, where self = "connected Truthy"
        and n = "''Chess Club''" and d = "[(''max_participants'', VInt 99)]"]
    by simp
  then show ?thesis
    using c f d by simp
qed

text \<open>
  C8 as stated fails for a collection state without the constraint: the index creation
  faults on a first connect over a collection that holds \<^verbatim>\<open>Chess Club\<close>, which leaves the
  adapter holding the collection handle. \<^verbatim>\<open>create_activity\<close> with the existing name then
  returns \<^verbatim>\<open>True\<close> and the collection holds two activities of that name.
\<close>

theorem duplicate_create_without_index:
  "fst (connect init (fresh_store Truthy [None, None, None, None, Some PyMongoError]
          [[(''_id'', VOid 0), (''name'', VStr ''Chess Club''), (''max_participants'', VInt 12)]]))
      = False
   \<and> fst (snd (connect init (fresh_store Truthy [None, None, None, None, Some PyMongoError]
          [[(''_id'', VOid 0), (''name'', VStr ''Chess Club''), (''max_participants'', VInt 12)]])))
      = connected Truthy
   \<and> fst (create_activity (connected Truthy) ''Chess Club'' [(''max_participants'', VInt 99)]
        (snd (snd (connect init (fresh_store Truthy [None, None, None, None, Some PyMongoError]
          [[(''_id'', VOid 0), (''name'', VStr ''Chess Club''),
            (''max_participants'', VInt 12)]])))))
      = Inr True
   \<and> docs (snd (create_activity (connected Truthy) ''Chess Club'' [(''max_participants'', VInt 99)]
        (snd (snd (connect init (fresh_store Truthy [None, None, None, None, Some PyMongoError]
          [[(''_id'', VOid 0), (''name'', VStr ''Chess Club''),
            (''max_participants'', VInt 12)]]))))))
      = [[(''_id'', VOid 0), (''name'', VStr ''Chess Club''), (''max_participants'', VInt 12)],
         [(''_id'', VOid 1), (''name'', VStr ''Chess Club''), (''max_participants'', VInt 99)]]"
  by code_simp

subsection \<open>Adding a participant\<close>

lemma add_to_set_roster:
  assumes "has_roster d"
  obtains d' where "apply_update (AddToSet ''participants'' v) d = Inr d'"
    and "roster d' = (if v \<in> set (roster d) then roster d else roster d @ [v])"
    and "has_roster d'"
    and "name_of d' = name_of d"
    and "d' = d \<longleftrightarrow> v \<in> set (roster d)"
proof (cases "map_of d ''participants''")
  case None
  let ?d' = "d @ [(''participants'', VList [v])]"
  have "apply_update (AddToSet ''participants'' v) d = Inr ?d'"
    using None by simp
  moreover have "map_of ?d' = (map_of d)(''participants'' \<mapsto> VList [v])"
    using None by (rule map_of_snoc_new)
  ultimately show ?thesis
    using None that [of ?d']
    by (simp add: roster_def has_roster_def participants_of_def name_of_def)
next
  case (Some p)
  then obtain xs where p: "p = VList xs"
    using assms by (auto simp: has_roster_def participants_of_def split: val.splits)
  show ?thesis
  proof (cases "v \<in> set xs")
    case True
    then show ?thesis
      using Some p that [of d] assms
      by (simp add: roster_def participants_of_def)
  next
    case False
    let ?d' = "dict_set ''participants'' (VList (xs @ [v])) d"
    have m: "map_of ?d' = (map_of d)(''participants'' \<mapsto> VList (xs @ [v]))"
      by (rule map_of_dict_set)
    have "?d' \<noteq> d"
    proof
      assume "?d' = d"
      then have "map_of ?d' ''participants'' = map_of d ''participants''" by simp
      then show False using m Some p by simp
    qed
    then show ?thesis
      using Some p False m that [of ?d']
      by (simp add: roster_def has_roster_def participants_of_def name_of_def)
  qed
qed

lemma add_to_set_no_roster:
  assumes "\<not> has_roster d"
  shows "apply_update (AddToSet ''participants'' v) d = Inl WriteError"
  using assms
  by (auto simp: has_roster_def participants_of_def split: option.splits val.splits)

lemma add_participant_step:
  assumes "not_collection self = Inr False"
    and "fault_at s 0 = None"
    and "find (matches n) (docs s) = Some d"
    and "has_roster d"
  obtains d' where "find (matches n) (docs (snd (add_participant self n e s))) = Some d'"
    and "roster d' = (if VStr e \<in> set (roster d) then roster d else roster d @ [VStr e])"
    and "has_roster d'"
    and "fst (add_participant self n e s) = Inr (VStr e \<notin> set (roster d))"
    and "VStr e \<in> set (roster d) \<Longrightarrow> docs (snd (add_participant self n e s)) = docs s"
    and "fault_at (snd (add_participant self n e s)) i = fault_at s (Suc i)"
proof -
  obtain d' where d': "apply_update (AddToSet ''participants'' (VStr e)) d = Inr d'"
    "roster d' = (if VStr e \<in> set (roster d) then roster d else roster d @ [VStr e])"
    "has_roster d'" "name_of d' = name_of d" "d' = d \<longleftrightarrow> VStr e \<in> set (roster d)"
    using add_to_set_roster [OF assms(4)] by blast
  have md: "matches n d'"
    using find_Some_holds [OF assms(3)] d'(4) by (simp add: matches_def)
  show ?thesis
  proof (cases "VStr e \<in> set (roster d)")
    case True
    then have "d' = d" using d'(5) by simp
    then have "add_participant self n e s
        = (Inr False, begin_call (UpdateOne n (AddToSet ''participants'' (VStr e))) s)"
      using assms d'(1)
      by (simp add: add_participant_def coll_update_one_def next_fault_eq Let_def)
    then show ?thesis
      using True assms(3) d' \<open>d' = d\<close> that [of d] by simp
  next
    case False
    then have "d' \<noteq> d" using d'(5) by simp
    then have "add_participant self n e s
        = (Inr True, (begin_call (UpdateOne n (AddToSet ''participants'' (VStr e))) s)
             \<lparr>docs := replace_first (matches n) d' (docs s)\<rparr>)"
      using assms d'(1,4)
      by (simp add: add_participant_def coll_update_one_def next_fault_eq Let_def)
    then show ?thesis
      using False d' find_replace_first [OF assms(3) md] that [of d'] by simp
  qed
qed

text \<open>
  What \<^verbatim>\<open>add_participant\<close> returns past the guard, faults included: \<^verbatim>\<open>True\<close> needs the
  store call to complete, the activity to exist, its participants to be a list and the
  email not to be among them.
\<close>

lemma add_participant_result:
  assumes "not_collection self = Inr False"
  shows "fst (add_participant self name email s)
     = Inr (fault_at s 0 = None
        \<and> (case find (matches name) (docs s) of
              None \<Rightarrow> False
            | Some d \<Rightarrow> has_roster d \<and> VStr email \<notin> set (roster d)))"
proof (cases "fault_at s 0")
  case (Some e)
  then show ?thesis
    using mutations_catch_fault(2) [OF assms Some] by simp
next
  case None
  show ?thesis
  proof (cases "find (matches name) (docs s)")
    case absent: None
    then show ?thesis
      using assms None
      by (simp add: add_participant_def coll_update_one_def next_fault_eq Let_def)
  next
    case (Some d)
    show ?thesis
    proof (cases "has_roster d")
      case True
      then obtain d' where
        "fst (add_participant self name email s) = Inr (VStr email \<notin> set (roster d))"
        using add_participant_step [OF assms None Some, of email 0] by blast
      then show ?thesis
        using Some None True by simp
    next
      case False
      then show ?thesis
        using assms None Some add_to_set_no_roster [OF False]
        by (simp add: add_participant_def coll_update_one_def next_fault_eq Let_def)
    qed
  qed
qed

text \<open>
  C10, as the code has it: \<^verbatim>\<open>add_participant\<close> returns \<^verbatim>\<open>True\<close> exactly when the guard lets
  the call through, the store call completes, an activity with the name exists, its
  participants are a list (or absent) and the email is not among them. When the guard
  raises, so does the operation; in every other case the result is \<^verbatim>\<open>False\<close>, which
  therefore does not tell an unknown activity from an email already present, nor either
  from a fault of the store.
\<close>

theorem add_participant_True_iff:
  "fst (add_participant self name email s)
     = (case not_collection self of
          Inl x \<Rightarrow> Inl x
        | Inr True \<Rightarrow> Inr False
        | Inr False \<Rightarrow>
            Inr (fault_at s 0 = None
              \<and> (case find (matches name) (docs s) of
                    None \<Rightarrow> False
                  | Some d \<Rightarrow> has_roster d \<and> VStr email \<notin> set (roster d))))"
proof (cases "not_collection self")
  case (Inl x)
  then show ?thesis
    using guard_raises(4) [OF Inl] by simp
next
  case (Inr b)
  show ?thesis
  proof (cases b)
    case True
    then show ?thesis
      using Inr by (simp add: add_participant_def)
  next
    case False
    then have "not_collection self = Inr False"
      using Inr by simp
    then show ?thesis
      using add_participant_result by simp
  qed
qed

theorem add_participant_True_iff_witness:
  "fst (add_participant (connected Truthy) ''Chess Club'' ''emma@mergington.edu''
      (fresh_store Truthy [] [[(''_id'', VOid 0), (''name'', VStr ''Chess Club''),
         (''participants'', VList [VStr ''michael@mergington.edu''])]])) = Inr True
   \<and> fst (add_participant (connected Truthy) ''Chess Club'' ''michael@mergington.edu''
      (fresh_store Truthy [] [[(''_id'', VOid 0), (''name'', VStr ''Chess Club''),
         (''participants'', VList [VStr ''michael@mergington.edu''])]])) = Inr False
   \<and> fst (add_participant (connected Truthy) ''Art Club'' ''michael@mergington.edu''
      (fresh_store Truthy [] [[(''_id'', VOid 0), (''name'', VStr ''Chess Club''),
         (''participants'', VList [VStr ''michael@mergington.edu''])]])) = Inr False"
proof -
  let ?s = "fresh_store Truthy [] [[(''_id'', VOid 0), (''name'', VStr ''Chess Club''),
         (''participants'', VList [VStr ''michael@mergington.edu''])]]"
  have h: "fault_at ?s 0 = None"
    by code_simp
  show ?thesis
    using h
      add_participant_True_iff [of "connected Truthy" "''Chess Club''" "''emma@mergington.edu''" ?s]
      add_participant_True_iff [of "connected Truthy" "''Chess Club''" "''michael@mergington.edu''" ?s]
      add_participant_True_iff [of "connected Truthy" "''Art Club''" "''michael@mergington.edu''" ?s]
    by (simp add: fresh_store_def matches_def name_of_def roster_def has_roster_def
        participants_of_def)
qed

text \<open>
  C10 as stated fails: on a connected adapter, \<^verbatim>\<open>Chess Club\<close> exists and the email is not
  among its participants, yet the store faults on the update and \<^verbatim>\<open>add_participant\<close>
  returns \<^verbatim>\<open>False\<close>.
\<close>

theorem add_participant_fault_is_False:
  "find (matches ''Chess Club'')
      (docs (fresh_store Truthy [Some PyMongoError] [[(''_id'', VOid 0), (''name'', VStr ''Chess Club''),
         (''participants'', VList [VStr ''michael@mergington.edu''])]]))
     = Some [(''_id'', VOid 0), (''name'', VStr ''Chess Club''),
         (''participants'', VList [VStr ''michael@mergington.edu''])]
   \<and> VStr ''emma@mergington.edu'' \<notin> set (roster [(''_id'', VOid 0), (''name'', VStr ''Chess Club''),
         (''participants'', VList [VStr ''michael@mergington.edu''])])
   \<and> fst (add_participant (connected Truthy) ''Chess Club'' ''emma@mergington.edu''
      (fresh_store Truthy [Some PyMongoError] [[(''_id'', VOid 0), (''name'', VStr ''Chess Club''),
         (''participants'', VList [VStr ''michael@mergington.edu''])]])) = Inr False"
  by code_simp

text \<open>
  C7, as the code has it: when the guard lets the calls through and both store calls
  complete, for an existing activity whose participants are a list (or absent), two
  \<^verbatim>\<open>add_participant\<close> calls in succession leave the participants with the email as often
  as it was stored before, and once if it was not stored: exactly once whenever it was
  stored at most once. The second call reports no modification and leaves the collection
  as the first call left it.
\<close>

theorem add_participant_twice:
  assumes "not_collection self = Inr False"
    and "no_fault 2 s"
    and "find (matches name) (docs s) = Some d"
    and "has_roster d"
  shows "fst (add_participant self name email (snd (add_participant self name email s)))
        = Inr False
    \<and> docs (snd (add_participant self name email (snd (add_participant self name email s))))
        = docs (snd (add_participant self name email s))
    \<and> (case find (matches name)
          (docs (snd (add_participant self name email (snd (add_participant self name email s))))) of
          None \<Rightarrow> False
        | Some d' \<Rightarrow>
            count_list (roster d') (VStr email)
              = (if VStr email \<in> set (roster d) then count_list (roster d) (VStr email) else 1))"
proof -
  let ?s1 = "snd (add_participant self name email s)"
  have f0: "fault_at s 0 = None" and f1: "fault_at s (Suc 0) = None"
    using assms(2) by (simp_all add: no_fault_unfold)
  obtain d1 where d1: "find (matches name) (docs ?s1) = Some d1"
    "roster d1 = (if VStr email \<in> set (roster d) then roster d else roster d @ [VStr email])"
    "has_roster d1" "fault_at ?s1 0 = fault_at s (Suc 0)"
    using add_participant_step [OF assms(1) f0 assms(3,4), of email 0] by blast
  have mem: "VStr email \<in> set (roster d1)"
    using d1(2) by (simp split: if_splits)
  have one: "count_list (roster d1) (VStr email)
      = (if VStr email \<in> set (roster d) then count_list (roster d) (VStr email) else 1)"
    using d1(2) by (simp add: count_list_0_iff)
  have f: "fault_at ?s1 0 = None"
    using d1(4) f1 by simp
  obtain d2 where d2: "fst (add_participant self name email ?s1) = Inr (VStr email \<notin> set (roster d1))"
    "docs (snd (add_participant self name email ?s1)) = docs ?s1"
    using add_participant_step [OF assms(1) f d1(1,3), of email 0] mem by blast
  show ?thesis
    using d2 mem d1(1) one by simp
qed

theorem add_participant_twice_witness:
  "fst (add_participant (connected Truthy) ''Chess Club'' ''emma@mergington.edu''
     (snd (add_participant (connected Truthy) ''Chess Club'' ''emma@mergington.edu''
      (fresh_store Truthy [] [[(''_id'', VOid 0), (''name'', VStr ''Chess Club''),
         (''participants'', VList [VStr ''michael@mergington.edu''])]])))) = Inr False
   \<and> docs (snd (add_participant (connected Truthy) ''Chess Club'' ''emma@mergington.edu''
     (snd (add_participant (connected Truthy) ''Chess Club'' ''emma@mergington.edu''
      (fresh_store Truthy [] [[(''_id'', VOid 0), (''name'', VStr ''Chess Club''),
         (''participants'', VList [VStr ''michael@mergington.edu''])]])))))
     = [[(''_id'', VOid 0), (''name'', VStr ''Chess Club''),
         (''participants'', VList [VStr ''michael@mergington.edu'', VStr ''emma@mergington.edu''])]]"
proof -
  let ?d = "[(''_id'', VOid 0), (''name'', VStr ''Chess Club''),
         (''participants'', VList [VStr ''michael@mergington.edu''])]"
  let ?s = "fresh_store Truthy [] [?d]"
  have h1: "not_collection (connected Truthy) = Inr False"
    by simp
  have h2: "no_fault 2 ?s"
    by code_simp
  have h3: "find (matches ''Chess Club'') (docs ?s) = Some ?d"
    by code_simp
  have h4: "has_roster ?d"
    by code_simp
  have run: "docs (snd (add_participant (connected Truthy) ''Chess Club'' ''emma@mergington.edu'' ?s))
     = [[(''_id'', VOid 0), (''name'', VStr ''Chess Club''),
         (''participants'', VList [VStr ''michael@mergington.edu'', VStr ''emma@mergington.edu''])]]"
    by code_simp
  show ?thesis
    using add_participant_twice [OF h1 h2 h3 h4] run by simp
qed

text \<open>
  C7 as stated fails. \<^verbatim>\<open>create_activity\<close> stores a participants list that holds the
  email twice, and after two \<^verbatim>\<open>add_participant\<close> calls the list still holds it twice. And
  when the store faults on the first call only, the first call returns \<^verbatim>\<open>False\<close> and the
  second returns \<^verbatim>\<open>True\<close>.
\<close>

theorem add_participant_twice_fails:
  "fst (create_activity (connected Truthy) ''Chess Club''
      [(''participants'', VList [VStr ''emma@mergington.edu'', VStr ''emma@mergington.edu''])]
      (fresh_store Truthy [] [])) = Inr True
   \<and> fst (add_participant (connected Truthy) ''Chess Club'' ''emma@mergington.edu''
      (snd (add_participant (connected Truthy) ''Chess Club'' ''emma@mergington.edu''
        (snd (create_activity (connected Truthy) ''Chess Club''
          [(''participants'', VList [VStr ''emma@mergington.edu'', VStr ''emma@mergington.edu''])]
          (fresh_store Truthy [] [])))))) = Inr False
   \<and> map roster (docs
      (snd (add_participant (connected Truthy) ''Chess Club'' ''emma@mergington.edu''
      (snd (add_participant (connected Truthy) ''Chess Club'' ''emma@mergington.edu''
        (snd (create_activity (connected Truthy) ''Chess Club''
          [(''participants'', VList [VStr ''emma@mergington.edu'', VStr ''emma@mergington.edu''])]
          (fresh_store Truthy [] []))))))))
      = [[VStr ''emma@mergington.edu'', VStr ''emma@mergington.edu'']]
   \<and> fst (add_participant (connected Truthy) ''Chess Club'' ''emma@mergington.edu''
      (fresh_store Truthy [Some PyMongoError] [[(''_id'', VOid 0), (''name'', VStr ''Chess Club''),
         (''participants'', VList [VStr ''michael@mergington.edu''])]])) = Inr False
   \<and> fst (add_participant (connected Truthy) ''Chess Club'' ''emma@mergington.edu''
      (snd (add_participant (connected Truthy) ''Chess Club'' ''emma@mergington.edu''
      (fresh_store Truthy [Some PyMongoError] [[(''_id'', VOid 0), (''name'', VStr ''Chess Club''),
         (''participants'', VList [VStr ''michael@mergington.edu''])]])))) = Inr True"
  by code_simp

subsection \<open>The signup and unregister handlers\<close>

text \<open>
  The handlers when the guard lets the calls through, the lookup completes and the stored
  participants are a list: 400 for an email already present, otherwise the confirmation
  when \<^verbatim>\<open>add_participant\<close> returns \<^verbatim>\<open>True\<close> and 500 when it returns \<^verbatim>\<open>False\<close>.
\<close>

lemma signup_connected:
  assumes "not_collection self = Inr False" and "fault_at s 0 = None"
    and "find (matches n) (docs s) = Some d" and "has_roster d"
  shows "signup_for_activity self n e s =
     (if VStr e \<in> set (roster d)
      then (HTTPException 400 ''Student is already signed up'', begin_call (FindOne n) s)
      else if fst (add_participant self n e (begin_call (FindOne n) s)) = Inr True
      then (Ok (''Signed up '' @ e @ '' for '' @ n),
            snd (add_participant self n e (begin_call (FindOne n) s)))
      else (HTTPException 500 ''Failed to sign up student'',
            snd (add_participant self n e (begin_call (FindOne n) s))))"
proof -
  have "matches n d"
    using find_Some_holds [OF assms(3)] by simp
  then have "dict_pop ''_id'' d \<noteq> []"
    by (rule matches_pop_nonempty)
  moreover obtain b s2 where "add_participant self n e (begin_call (FindOne n) s) = (Inr b, s2)"
    using add_participant_result [OF assms(1), of n e "begin_call (FindOne n) s"]
    by (cases "add_participant self n e (begin_call (FindOne n) s)") auto
  ultimately show ?thesis
    using assms
    by (simp add: signup_for_activity_def get_activity_connected participants_of_pop
        py_in_roster split: bool.splits)
qed

text \<open>
  A request that names an activity without a stored record: the handler makes no store
  call but the lookup and changes no document. It answers 404 when the adapter holds no
  handle or the lookup completes; an exception of the guard or of the lookup leaves the
  handler as it is.
\<close>

lemma unknown_activity_outcome:
  assumes "find (matches name) (docs s) = None"
  shows "signup_for_activity self name email s =
     (case not_collection self of
        Inl x \<Rightarrow> (Unhandled x, s)
      | Inr True \<Rightarrow> (HTTPException 404 ''Activity not found'', s)
      | Inr False \<Rightarrow>
          (case fault_at s 0 of
             None \<Rightarrow> (HTTPException 404 ''Activity not found'', begin_call (FindOne name) s)
           | Some x \<Rightarrow> (Unhandled x, begin_call (FindOne name) s)))"
    and "unregister_from_activity self name email s =
     (case not_collection self of
        Inl x \<Rightarrow> (Unhandled x, s)
      | Inr True \<Rightarrow> (HTTPException 404 ''Activity not found'', s)
      | Inr False \<Rightarrow>
          (case fault_at s 0 of
             None \<Rightarrow> (HTTPException 404 ''Activity not found'', begin_call (FindOne name) s)
           | Some x \<Rightarrow> (Unhandled x, begin_call (FindOne name) s)))"
  by (simp_all add: signup_for_activity_def unregister_from_activity_def
      lookup_only [OF assms] split: option.splits sum.splits bool.splits)

text \<open>
  C5 at a failing input: a signup request on a connected adapter while the store faults on
  the lookup. \<^verbatim>\<open>get_activity\<close> makes its store call outside any \<^verbatim>\<open>try\<close>, so the fault leaves
  the handler as an exception where the claim has 404 (no activity \<^verbatim>\<open>Art Club\<close> exists)
  and 400 (the email is already among the participants of \<^verbatim>\<open>Chess Club\<close>). Behind a driver
  whose collection objects refuse truth testing, the guard of \<^verbatim>\<open>get_activity\<close> raises and
  the same requests end in an exception with no fault of the store at all.
\<close>

theorem signup_lookup_fault_escapes:
  "fst (signup_for_activity (connected Truthy) ''Art Club'' ''emma@mergington.edu''
      (fresh_store Truthy [Some PyMongoError] [[(''_id'', VOid 0), (''name'', VStr ''Chess Club''),
         (''participants'', VList [VStr ''michael@mergington.edu''])]]))
     = Unhandled PyMongoError
   \<and> fst (signup_for_activity (connected Truthy) ''Chess Club'' ''michael@mergington.edu''
      (fresh_store Truthy [Some PyMongoError] [[(''_id'', VOid 0), (''name'', VStr ''Chess Club''),
         (''participants'', VList [VStr ''michael@mergington.edu''])]]))
     = Unhandled PyMongoError
   \<and> fst (signup_for_activity (connected Truthy) ''Art Club'' ''emma@mergington.edu''
      (fresh_store Truthy [] [[(''_id'', VOid 0), (''name'', VStr ''Chess Club''),
         (''participants'', VList [VStr ''michael@mergington.edu''])]]))
     = HTTPException 404 ''Activity not found''
   \<and> fst (signup_for_activity (connected Truthy) ''Chess Club'' ''michael@mergington.edu''
      (fresh_store Truthy [] [[(''_id'', VOid 0), (''name'', VStr ''Chess Club''),
         (''participants'', VList [VStr ''michael@mergington.edu''])]]))
     = HTTPException 400 ''Student is already signed up''
   \<and> fst (signup_for_activity (connected Truthy) ''Chess Club'' ''emma@mergington.edu''
      (fresh_store Truthy [None, Some PyMongoError] [[(''_id'', VOid 0), (''name'', VStr ''Chess Club''),
         (''participants'', VList [VStr ''michael@mergington.edu''])]]))
     = HTTPException 500 ''Failed to sign up student''
   \<and> fst (signup_for_activity (connected Truthy) ''Chess Club'' ''emma@mergington.edu''
      (fresh_store Truthy [] [[(''_id'', VOid 0), (''name'', VStr ''Chess Club''),
         (''participants'', VList [VStr ''michael@mergington.edu''])]]))
     = Ok ''Signed up emma@mergington.edu for Chess Club''
   \<and> fst (signup_for_activity (connected Refuses) ''Art Club'' ''emma@mergington.edu''
      (fresh_store Refuses [] [[(''_id'', VOid 0), (''name'', VStr ''Chess Club''),
         (''participants'', VList [VStr ''michael@mergington.edu''])]]))
     = Unhandled NotImplementedError
   \<and> fst (signup_for_activity (connected Refuses) ''Chess Club'' ''emma@mergington.edu''
      (fresh_store Refuses [] [[(''_id'', VOid 0), (''name'', VStr ''Chess Club''),
         (''participants'', VList [VStr ''michael@mergington.edu''])]]))
     = Unhandled NotImplementedError"
  by code_simp

text \<open>
  C6 at a failing input: a signup and an unregister request for \<^verbatim>\<open>Art Club\<close>, which has no
  stored record, on a connected adapter while the store faults on the lookup. Neither
  handler issues an update and the documents stay as they were, but the fault leaves
  \<^verbatim>\<open>get_activity\<close> and the handler as an exception: the outcome is not the not-found one.
  Behind a driver whose collection objects refuse truth testing, the guard of
  \<^verbatim>\<open>get_activity\<close> raises and the outcome is an exception without any store call.
\<close>

theorem unknown_activity_lookup_fault:
  "find (matches ''Art Club'') [[(''_id'', VOid 0), (''name'', VStr ''Chess Club'')]] = None
   \<and> signup_for_activity (connected Truthy) ''Art Club'' ''emma@mergington.edu''
      (fresh_store Truthy [Some PyMongoError] [[(''_id'', VOid 0), (''name'', VStr ''Chess Club'')]])
     = (Unhandled PyMongoError,
        \<lparr>docs = [[(''_id'', VOid 0), (''name'', VStr ''Chess Club'')]], name_index = False,
          handles = Truthy, faults = [], trace = [FindOne ''Art Club'']\<rparr>)
   \<and> unregister_from_activity (connected Truthy) ''Art Club'' ''emma@mergington.edu''
      (fresh_store Truthy [Some PyMongoError] [[(''_id'', VOid 0), (''name'', VStr ''Chess Club'')]])
     = (Unhandled PyMongoError,
        \<lparr>docs = [[(''_id'', VOid 0), (''name'', VStr ''Chess Club'')]], name_index = False,
          handles = Truthy, faults = [], trace = [FindOne ''Art Club'']\<rparr>)
   \<and> signup_for_activity (connected Truthy) ''Art Club'' ''emma@mergington.edu''
      (fresh_store Truthy [] [[(''_id'', VOid 0), (''name'', VStr ''Chess Club'')]])
     = (HTTPException 404 ''Activity not found'',
        \<lparr>docs = [[(''_id'', VOid 0), (''name'', VStr ''Chess Club'')]], name_index = False,
          handles = Truthy, faults = [], trace = [FindOne ''Art Club'']\<rparr>)
   \<and> signup_for_activity (connected Refuses) ''Art Club'' ''emma@mergington.edu''
      (fresh_store Refuses [] [[(''_id'', VOid 0), (''name'', VStr ''Chess Club'')]])
     = (Unhandled NotImplementedError,
        fresh_store Refuses [] [[(''_id'', VOid 0), (''name'', VStr ''Chess Club'')]])
   \<and> unregister_from_activity (connected Refuses) ''Art Club'' ''emma@mergington.edu''
      (fresh_store Refuses [] [[(''_id'', VOid 0), (''name'', VStr ''Chess Club'')]])
     = (Unhandled NotImplementedError,
        fresh_store Refuses [] [[(''_id'', VOid 0), (''name'', VStr ''Chess Club'')]])"
  by code_simp

subsection \<open>The seed script\<close>

lemma load_trace:
  "not_collection self = Inr False \<Longrightarrow>
     trace (snd (snd (load self items k out s)))
       = trace s @ map (\<lambda>item. InsertOne (dict_merge [(''name'', VStr (fst item))] (snd item))) items"
proof (induction items arbitrary: k out s)
  case Nil
  then show ?case by simp
next
  case (Cons item items)
  show ?case
  proof (cases "create_activity self (fst item) (snd item) s")
    case (Pair r s')
    have t: "trace s' = trace s @ [InsertOne (dict_merge [(''name'', VStr (fst item))] (snd item))]"
      using create_activity_trace [OF Cons.prems, of "fst item" "snd item" s] Pair by simp
    have "r \<noteq> Inl e" for e
      using Pair Cons.prems by (auto simp: create_activity_def split: prod.splits sum.splits)
    then obtain b where "r = Inr b"
      by (cases r) auto
    then show ?thesis
      using Pair t Cons.IH [OF Cons.prems] by (cases b) simp_all
  qed
qed

lemma load_result:
  "load self items k out s = (Inr k', out', s') \<Longrightarrow>
     k' + length (filter is_failed out') = k + length items + length (filter is_failed out)
     \<and> k' + length (filter is_created out) = k + length (filter is_created out')"
proof (induction items arbitrary: k out s)
  case Nil
  then show ?case by simp
next
  case (Cons item items)
  show ?case
  proof (cases "create_activity self (fst item) (snd item) s")
    case (Pair r s1)
    show ?thesis
    proof (cases r)
      case (Inl e)
      then show ?thesis
        using Pair Cons.prems by simp
    next
      case (Inr b)
      then show ?thesis
        using Pair Cons.prems
          Cons.IH [of "k + 1" "out @ [Created (fst item)]" s1]
          Cons.IH [of k "out @ [Failed (fst item)]" s1]
        by (cases b) simp_all
    qed
  qed
qed

lemma load_raises:
  "load self items k out s = (Inl e, out', s') \<Longrightarrow>
     length (filter is_created out') < length (filter is_created out) + length items"
proof (induction items arbitrary: k out s)
  case Nil
  then show ?case by simp
next
  case (Cons item items)
  show ?case
  proof (cases "create_activity self (fst item) (snd item) s")
    case (Pair r s1)
    show ?thesis
    proof (cases r)
      case (Inl x)
      then show ?thesis
        using Pair Cons.prems by simp
    next
      case (Inr b)
      then show ?thesis
        using Pair Cons.prems
          Cons.IH [of "k + 1" "out @ [Created (fst item)]" s1]
          Cons.IH [of k "out @ [Failed (fst item)]" s1]
        by (cases b) fastforce+
    qed
  qed
qed

lemma create_activity_no_raise:
  "not_collection self = Inr False \<Longrightarrow> \<exists>b. fst (create_activity self n d s) = Inr b"
  by (auto simp: create_activity_def split: prod.splits sum.splits)

lemma load_no_raise:
  "not_collection self = Inr False \<Longrightarrow> \<exists>k'. fst (load self items k out s) = Inr k'"
proof (induction items arbitrary: k out s)
  case Nil
  then show ?case by simp
next
  case (Cons item items)
  show ?case
  proof (cases "create_activity self (fst item) (snd item) s")
    case (Pair r s')
    obtain b where "r = Inr b"
      using create_activity_no_raise [OF Cons.prems, of "fst item" "snd item" s] Pair by auto
    then show ?thesis
      using Pair Cons.IH [OF Cons.prems] by (cases b) simp_all
  qed
qed

lemma load_all_succeed:
  assumes "not_collection self = Inr False"
    and "no_fault (length items) s"
    and "distinct (map fst items)"
    and "list_all (\<lambda>item. well_formed (snd item)) items"
    and "list_all (\<lambda>item. \<not> list_ex (matches (fst item)) (docs s)) items"
  shows "fst (load self items k out s) = Inr (k + length items)
    \<and> fst (snd (load self items k out s)) = out @ map (\<lambda>item. Created (fst item)) items
    \<and> docs (snd (snd (load self items k out s)))
        = docs s @ map (\<lambda>p. (''_id'', VOid (fst p)) # (''name'', VStr (fst (snd p))) # snd (snd p))
            (enumerate (next_oid (docs s)) items)"
  using assms(2-)
proof (induction items arbitrary: k out s)
  case Nil
  then show ?case by simp
next
  case (Cons item items)
  let ?stored = "(''_id'', VOid (next_oid (docs s))) # (''name'', VStr (fst item)) # snd item"
  let ?s' = "(begin_call (InsertOne ((''name'', VStr (fst item)) # snd item)) s)
          \<lparr>docs := docs s @ [?stored]\<rparr>"
  have f0: "fault_at s 0 = None" and rest: "no_fault (length items) ?s'"
    using Cons.prems(1) by (simp_all add: no_fault_unfold)
  have create: "create_activity self (fst item) (snd item) s = (Inr True, ?s')"
    using Cons.prems(3,4) by (intro create_activity_new [OF assms(1) f0]) simp_all
  have "\<not> matches (fst item') ?stored" if "item' \<in> set items" for item'
    using that Cons.prems(2) by (auto simp: matches_def name_of_def)
  then have fresh: "list_all (\<lambda>item'. \<not> list_ex (matches (fst item')) (docs ?s')) items"
    using Cons.prems(4) by (simp add: list_all_iff)
  have oid: "next_oid (docs ?s') = Suc (next_oid (docs s))"
    by (simp add: next_oid_append oid_bound_def)
  have IH: "fst (load self items (k + 1) (out @ [Created (fst item)]) ?s')
        = Inr (k + 1 + length items)
    \<and> fst (snd (load self items (k + 1) (out @ [Created (fst item)]) ?s'))
        = (out @ [Created (fst item)]) @ map (\<lambda>item. Created (fst item)) items
    \<and> docs (snd (snd (load self items (k + 1) (out @ [Created (fst item)]) ?s')))
        = docs ?s' @ map (\<lambda>p. (''_id'', VOid (fst p)) # (''name'', VStr (fst (snd p))) # snd (snd p))
            (enumerate (next_oid (docs ?s')) items)"
    using Cons.prems(2,3) by (intro Cons.IH [OF rest _ _ fresh]) simp_all
  show ?case
    using create IH oid by simp
qed

lemma load_guard_raises:
  "not_collection self = Inl x \<Longrightarrow> items \<noteq> [] \<Longrightarrow>
     load self items k out s = (Inl x, out, s)"
  by (cases items) (simp_all add: guard_raises(3))

lemma seed_merge: "map (\<lambda>item. dict_merge [(''name'', VStr (fst item))] (snd item)) INITIAL_ACTIVITIES = seed_docs"
  by (simp add: seed_docs_def INITIAL_ACTIVITIES_def dict_merge_def)

lemma length_INITIAL [simp]: "length INITIAL_ACTIVITIES = 9"
  by (simp add: INITIAL_ACTIVITIES_def)

lemma seed_well_formed:
  "distinct (map fst INITIAL_ACTIVITIES)"
  "list_all (\<lambda>item. well_formed (snd item)) INITIAL_ACTIVITIES"
  by (simp_all add: INITIAL_ACTIVITIES_def well_formed_def encodable_doc_def)

lemma list_ex_filter: "list_ex P xs \<longleftrightarrow> length (filter P xs) \<noteq> 0"
  by (simp add: list_ex_iff filter_empty_conv)

lemma exit_status_Inr [simp]: "exit_status (Inr b) = (if b then 0 else 1)"
  by (cases b) simp_all

text \<open>
  In every run the exit status is 0 exactly when nine items are reported as created; an
  item reported as failed, a failed connect and an escaping exception all make it
  non-zero.
\<close>

lemma main_exit_created:
  "fst (main self s) = 0 \<longleftrightarrow> length (filter is_created (fst (snd (main self s)))) = 9"
proof (cases "connect self s")
  case (fields ok self1 s1)
  show ?thesis
  proof (cases ok)
    case False
    then show ?thesis
      using fields by (simp add: main_def migrate_def)
  next
    case True
    show ?thesis
    proof (cases "activities_collection self1")
      case None
      then show ?thesis
        using fields True by (simp add: main_def migrate_def)
    next
      case (Some c)
      show ?thesis
      proof (cases "coll_delete_many s1")
        case (Pair r s2)
        show ?thesis
        proof (cases r)
          case (Inl e)
          then show ?thesis
            using fields True Some Pair by (simp add: main_def migrate_def)
        next
          case (Inr n)
          show ?thesis
          proof (cases "load self1 INITIAL_ACTIVITIES 0 [Starting, Cleared] s2")
            case l: (fields r' out s3)
            show ?thesis
            proof (cases r')
              case (Inl e)
              then show ?thesis
                using fields True Some Pair Inr l load_raises [of self1 INITIAL_ACTIVITIES 0
                    "[Starting, Cleared]" s2 e out s3]
                by (simp add: main_def migrate_def)
            next
              case k: (Inr k)
              then show ?thesis
                using fields True Some Pair Inr l load_result [of self1 INITIAL_ACTIVITIES 0
                    "[Starting, Cleared]" s2 k out s3]
                by (auto simp: main_def migrate_def split: prod.splits)
            qed
          qed
        qed
      qed
    qed
  qed
qed

lemma main_exit_failed:
  "list_ex is_failed (fst (snd (main self s))) \<Longrightarrow> fst (main self s) \<noteq> 0"
  by (auto simp: main_def migrate_def list_ex_filter
      split: prod.splits bool.splits option.splits sum.splits dest!: load_result)

lemma main_exit_report:
  "fst (main self s) = 0 \<Longrightarrow> last (fst (snd (main self s))) = Complete 9 9"
  by (auto simp: main_def migrate_def
      split: prod.splits bool.splits option.splits sum.splits if_splits)

text \<open>
  Behind a driver whose collection objects count as true: against a reachable store whose
  clearing call completes, the script's store calls are connect, \<^verbatim>\<open>delete_many({})\<close>, one
  insert per activity of the dataset in its order, and close; when all fifteen store
  calls complete, the nine inserts succeed and the collection holds exactly the nine
  documents of the dataset, whatever it held before.
\<close>

lemma migrate_reachable:
  assumes "fst (connect self s)" and "fault_at s 5 = None" and "handles s = Truthy"
  shows "trace (snd (snd (main self s)))
      = trace s @ [NewClient, Ping, GetDatabase, GetCollection, CreateIndex, DeleteMany]
          @ map InsertOne seed_docs @ [Close]"
    and "fst (main self s) = 0 \<longleftrightarrow> \<not> list_ex is_failed (fst (snd (main self s)))"
proof -
  obtain self1 s1 where c: "connect self s = (True, self1, s1)"
    using assms(1) by (cases "connect self s") auto
  have h: "activities_collection self1 = Some (Collection Truthy)" "client self1 = Some MongoClient"
    and tr: "trace s1 = trace s @ [NewClient, Ping, GetDatabase, GetCollection, CreateIndex]"
    and f: "fault_at s1 0 = None"
    using connect_success_state [OF assms(1)] c assms(2,3) by (simp_all add: eval_nat_numeral)
  have g: "not_collection self1 = Inr False"
    using h(1) by (simp add: not_collection_handle)
  let ?s2 = "(begin_call DeleteMany s1)\<lparr>docs := []\<rparr>"
  obtain k out s3 where l: "load self1 INITIAL_ACTIVITIES 0 [Starting, Cleared] ?s2 = (Inr k, out, s3)"
    using load_no_raise [OF g, of INITIAL_ACTIVITIES 0 "[Starting, Cleared]" ?s2]
    by (cases "load self1 INITIAL_ACTIVITIES 0 [Starting, Cleared] ?s2") auto
  have t3: "trace s3 = trace ?s2 @ map InsertOne seed_docs"
    using load_trace [OF g, of INITIAL_ACTIVITIES 0 "[Starting, Cleared]" ?s2] l
    by (simp add: seed_merge [symmetric] comp_def)
  have m: "main self s
      = (exit_status (Inr (k = 9)), out @ [Complete k 9], s3\<lparr>trace := trace s3 @ [Close]\<rparr>)"
    using c h f l
    by (simp add: main_def migrate_def coll_delete_many_def next_fault_eq close_def)
  show "trace (snd (snd (main self s)))
      = trace s @ [NewClient, Ping, GetDatabase, GetCollection, CreateIndex, DeleteMany]
          @ map InsertOne seed_docs @ [Close]"
    using m t3 tr by simp
  have "k + length (filter is_failed out) = 9"
    using load_result [OF l] by simp
  then show "fst (main self s) = 0 \<longleftrightarrow> \<not> list_ex is_failed (fst (snd (main self s)))"
    using m by (cases "k = 9") (auto simp: list_ex_filter)
qed

lemma migrate_all_complete:
  assumes "\<not> step_fails s" and "no_fault 15 s" and "handles s = Truthy"
  shows "fst (main self s) = 0"
    and "fst (snd (main self s))
        = [Starting, Cleared] @ map (\<lambda>item. Created (fst item)) INITIAL_ACTIVITIES @ [Complete 9 9]"
    and "docs (snd (snd (main self s)))
        = map (\<lambda>p. (''_id'', VOid (fst p)) # (''name'', VStr (fst (snd p))) # snd (snd p))
            (enumerate 0 INITIAL_ACTIVITIES)"
proof -
  have ok: "fst (connect self s)"
    using assms(1) by (simp add: connect_succeeds_iff)
  obtain self1 s1 where c: "connect self s = (True, self1, s1)"
    using ok by (cases "connect self s") auto
  have h: "activities_collection self1 = Some (Collection Truthy)" "client self1 = Some MongoClient"
    and f: "fault_at s1 i = fault_at s (Suc (Suc (Suc (Suc (Suc i)))))" for i
    using connect_success_state [OF ok] c assms(3) by simp_all
  have g: "not_collection self1 = Inr False"
    using h(1) by (simp add: not_collection_handle)
  have n: "fault_at s i = None" if "i < 15" for i
    using assms(2) that by (simp add: no_fault_unfold)
  let ?s2 = "(begin_call DeleteMany s1)\<lparr>docs := []\<rparr>"
  have f0: "fault_at s1 0 = None"
    by (simp add: f n)
  have calm: "no_fault (length INITIAL_ACTIVITIES) ?s2"
    by (simp add: no_fault_unfold f n)
  have empty: "list_all (\<lambda>item. \<not> list_ex (matches (fst item)) (docs ?s2)) INITIAL_ACTIVITIES"
    by (simp add: list_all_iff)
  obtain r out s3 where l: "load self1 INITIAL_ACTIVITIES 0 [Starting, Cleared] ?s2 = (r, out, s3)"
    by (cases "load self1 INITIAL_ACTIVITIES 0 [Starting, Cleared] ?s2") auto
  have r: "r = Inr 9" "out = [Starting, Cleared] @ map (\<lambda>item. Created (fst item)) INITIAL_ACTIVITIES"
    "docs s3 = map (\<lambda>p. (''_id'', VOid (fst p)) # (''name'', VStr (fst (snd p))) # snd (snd p))
            (enumerate 0 INITIAL_ACTIVITIES)"
    using load_all_succeed [OF g calm seed_well_formed empty, of 0 "[Starting, Cleared]"] l
    by simp_all
  have m: "main self s = (0, out @ [Complete 9 9], s3\<lparr>trace := trace s3 @ [Close]\<rparr>)"
    using c h f0 l r(1)
    by (simp add: main_def migrate_def coll_delete_many_def next_fault_eq close_def)
  show "fst (main self s) = 0"
    using m by simp
  show "fst (snd (main self s))
        = [Starting, Cleared] @ map (\<lambda>item. Created (fst item)) INITIAL_ACTIVITIES @ [Complete 9 9]"
    using m r(2) by simp
  show "docs (snd (snd (main self s)))
        = map (\<lambda>p. (''_id'', VOid (fst p)) # (''name'', VStr (fst (snd p))) # snd (snd p))
            (enumerate 0 INITIAL_ACTIVITIES)"
    using m r(3) by simp
qed

text \<open>
  Behind a driver whose collection objects refuse truth testing: against every reachable
  store whose clearing call completes, the script empties the collection, then the guard
  of the first \<^verbatim>\<open>create_activity\<close> raises; no insert is issued, the script ends with the
  exception and the collection stays empty.
\<close>

lemma migrate_guard_raises:
  assumes "fst (connect self s)" and "fault_at s 5 = None" and "handles s = Refuses"
  shows "fst (main self s) = 1"
    and "fst (snd (main self s)) = [Starting, Cleared]"
    and "docs (snd (snd (main self s))) = []"
    and "trace (snd (snd (main self s)))
      = trace s @ [NewClient, Ping, GetDatabase, GetCollection, CreateIndex, DeleteMany]"
proof -
  obtain self1 s1 where c: "connect self s = (True, self1, s1)"
    using assms(1) by (cases "connect self s") auto
  have h: "activities_collection self1 = Some (Collection Refuses)"
    and tr: "trace s1 = trace s @ [NewClient, Ping, GetDatabase, GetCollection, CreateIndex]"
    and f: "fault_at s1 0 = None"
    using connect_success_state [OF assms(1)] c assms(2,3) by (simp_all add: eval_nat_numeral)
  have g: "not_collection self1 = Inl NotImplementedError"
    using h by (simp add: not_collection_handle)
  let ?s2 = "(begin_call DeleteMany s1)\<lparr>docs := []\<rparr>"
  have l: "load self1 INITIAL_ACTIVITIES 0 [Starting, Cleared] ?s2
      = (Inl NotImplementedError, [Starting, Cleared], ?s2)"
    using g by (rule load_guard_raises) (simp add: INITIAL_ACTIVITIES_def)
  have m: "main self s = (1, [Starting, Cleared], ?s2)"
    using c h f l
    by (simp add: main_def migrate_def coll_delete_many_def next_fault_eq)
  show "fst (main self s) = 1" and "fst (snd (main self s)) = [Starting, Cleared]"
    and "docs (snd (snd (main self s))) = []"
    and "trace (snd (snd (main self s)))
      = trace s @ [NewClient, Ping, GetDatabase, GetCollection, CreateIndex, DeleteMany]"
    using m tr by simp_all
qed

text \<open>
  C9 at a failing input: the script run against a reachable store that holds one activity
  from an earlier use, behind a driver whose collection objects refuse truth testing, no
  store call faulting. The script connects and removes the existing document; then the
  guard of \<^verbatim>\<open>create_activity\<close>, which truth-tests the collection handle, raises
  \<^verbatim>\<open>NotImplementedError\<close> on the first item. None of the nine activities is inserted, no
  item and no summary is reported, and the collection is left empty; the exit status is 1.
\<close>

theorem migrate_clears_then_raises:
  "docs (old_store Refuses []) = [[(''_id'', VOid 7), (''name'', VStr ''Knitting'')]]
   \<and> fst (connect init (old_store Refuses [])) = True
   \<and> fst (migrate init (old_store Refuses [])) = Inl NotImplementedError
   \<and> fst (main init (old_store Refuses [])) = 1
   \<and> fst (snd (main init (old_store Refuses []))) = [Starting, Cleared]
   \<and> docs (snd (snd (main init (old_store Refuses [])))) = []
   \<and> trace (snd (snd (main init (old_store Refuses []))))
       = [NewClient, Ping, GetDatabase, GetCollection, CreateIndex, DeleteMany]"
  by code_simp


end
